theory Spec2Isabelle
  imports Main "HOL-Library.AList" "HOL-Library.Code_Target_Nat"
begin

section \<open>Values exchanged with clients and with the document store\<close>

text \<open>
  Payloads are JavaScript values. Fields the server only relays (a file descriptor, a
  canvas object, a cursor position) stay opaque values of this type; \<open>JUndef\<close> is
  \<open>undefined\<close>.
\<close>

datatype json =
    JUndef
  | JNull
  | JBool bool
  | JNum int
  | JStr string
  | JArr "json list"
  | JObj "(string \<times> json) list"

text \<open>\<open>socket.user\<close>: the authenticated account, or the guest identity made up at connect.\<close>

record user_t =
  u_id :: string
  username :: string
  isGuest :: bool

text \<open>An entry of a room's membership map (the object literal of the \<open>join-room\<close> handler).\<close>

record userInfo =
  ui_id :: string
  ui_username :: string
  ui_isGuest :: bool
  ui_socketId :: string
  ui_intent :: "json option"

text \<open>
  A socket object. \<open>roomId\<close> is \<open>None\<close> for \<open>undefined\<close>/\<open>null\<close>; \<open>rooms\<close> are the
  transport rooms the socket has joined (\<open>socket.join\<close>, \<open>socket.leave\<close>);
  \<open>connected\<close> says that the socket is still in \<open>io.sockets.sockets\<close>.
  \<open>voiceParticipants\<close> is the map the connection callback creates for each socket.
\<close>

record socket =
  socket_id :: string
  roomId :: "string option"
  user :: user_t
  displayName :: "string option"
  voicePeerId :: "string option"
  rooms :: "string list"
  connected :: bool
  voiceParticipants :: "(string \<times> json list) list"

datatype audience =
    To_socket string
  | To_room string
  | To_room_except string string

type_synonym msg = "audience \<times> string \<times> json"

text \<open>A participant of \<open>global.voiceRooms\<close>.\<close>

record voicePeer =
  vp_peerId :: "string option"
  vp_socketId :: string
  vp_isMuted :: json
  vp_username :: string

text \<open>Calls issued to the document store (\<open>RoomState.findOneAndUpdate\<close>).\<close>

datatype store_call =
    Set_file_content string string json
  | Push_field string string json
  | Pull_field string string json
  | Set_file_name string json json
  | Set_canvas_json string json json
  | Set_first_canvas_json string json
  | Push_capped string string json int

text \<open>
  A flush of the write-back buffer that is waiting for the store: the room, the address
  of the buffer it iterates, and the position of the entry whose update is in flight.
\<close>

record flush =
  fl_room :: string
  fl_buf :: nat
  fl_pos :: nat

text \<open>
  The module-level maps of the socket handler, the socket objects, the runtime's pending
  timeouts and suspended handlers, and what the server has sent.
  A room's membership map is insertion-ordered, as a JavaScript \<open>Map\<close> is.
  \<open>pendingSaves\<close> holds the address of the room's buffer in \<open>bufs\<close>, because a
  flush keeps a reference to the buffer while the map entry may be replaced.
\<close>

record server =
  sockets :: "string \<rightharpoonup> socket"
  roomUsers :: "string \<rightharpoonup> (string \<times> userInfo) list"
  roomHosts :: "string \<rightharpoonup> string"
  roomSettings :: "string \<rightharpoonup> json"
  saveTimers :: "string \<rightharpoonup> nat"
  pendingSaves :: "string \<rightharpoonup> nat"
  bufs :: "nat \<rightharpoonup> (string \<times> json) list"
  timers :: "(nat \<times> string \<times> nat) list"
  nextTimer :: nat
  nextBuf :: nat
  now :: nat
  flushing :: "flush list"
  joining :: "(string \<times> string) list"
  voiceRooms :: "string \<rightharpoonup> voicePeer list"
  roomCursorPositions :: "string \<rightharpoonup> (string \<times> (string \<times> json) list) list"
  outbox :: "msg list"
  storeCalls :: "store_call list"
  console_error :: "string list"

definition init :: server where
  "init = \<lparr> sockets = Map.empty, roomUsers = Map.empty, roomHosts = Map.empty,
            roomSettings = Map.empty, saveTimers = Map.empty, pendingSaves = Map.empty,
            bufs = Map.empty, timers = [], nextTimer = 0, nextBuf = 0, now = 0,
            flushing = [], joining = [], voiceRooms = Map.empty,
            roomCursorPositions = Map.empty, outbox = [], storeCalls = [],
            console_error = [] \<rparr>"

section \<open>Helpers of the runtime\<close>

text \<open>JavaScript truthiness of a string that may be missing: \<open>!roomId\<close> is \<open>\<not> truthy roomId\<close>.\<close>

fun truthy :: "string option \<Rightarrow> bool" where
  "truthy None = False"
| "truthy (Some s) = (s \<noteq> [])"

definition emit :: "audience \<Rightarrow> string \<Rightarrow> json \<Rightarrow> server \<Rightarrow> server" where
  "emit a ev body st = st\<lparr>outbox := outbox st @ [(a, ev, body)]\<rparr>"

definition log_error :: "string \<Rightarrow> server \<Rightarrow> server" where
  "log_error s st = st\<lparr>console_error := console_error st @ [s]\<rparr>"

text \<open>Who gets a message: the sockets that are connected and in the transport room.\<close>

fun receives :: "server \<Rightarrow> audience \<Rightarrow> string \<Rightarrow> bool" where
  "receives st (To_socket t) s =
     (s = t \<and> (case sockets st s of None \<Rightarrow> False | Some k \<Rightarrow> connected k))"
| "receives st (To_room r) s =
     (case sockets st s of None \<Rightarrow> False | Some k \<Rightarrow> connected k \<and> r \<in> set (rooms k))"
| "receives st (To_room_except r t) s =
     (s \<noteq> t \<and> (case sockets st s of None \<Rightarrow> False | Some k \<Rightarrow> connected k \<and> r \<in> set (rooms k)))"

definition userInfo_json :: "userInfo \<Rightarrow> json" where
  "userInfo_json u =
     JObj ([(''id'', JStr (ui_id u)), (''username'', JStr (ui_username u)),
            (''isGuest'', JBool (ui_isGuest u)), (''socketId'', JStr (ui_socketId u))]
           @ (case ui_intent u of None \<Rightarrow> [] | Some i \<Rightarrow> [(''intent'', i)]))"

definition users_json :: "(string \<times> userInfo) list \<Rightarrow> json" where
  "users_json m = JArr (map (userInfo_json \<circ> snd) m)"

definition opt_json :: "string option \<Rightarrow> json" where
  "opt_json x = (case x of None \<Rightarrow> JUndef | Some s \<Rightarrow> JStr s)"

definition set_socket :: "string \<Rightarrow> (socket \<Rightarrow> socket) \<Rightarrow> server \<Rightarrow> server" where
  "set_socket s f st =
     (case sockets st s of None \<Rightarrow> st
      | Some k \<Rightarrow> st\<lparr>sockets := (sockets st)(s \<mapsto> f k)\<rparr>)"

text \<open>\<open>io.sockets.sockets.has(s)\<close>.\<close>

definition is_connected :: "server \<Rightarrow> string \<Rightarrow> bool" where
  "is_connected st s = (case sockets st s of None \<Rightarrow> False | Some k \<Rightarrow> connected k)"

text \<open>The ids in a room's membership map, in iteration order.\<close>

definition member_ids :: "server \<Rightarrow> string \<Rightarrow> string list" where
  "member_ids st r = (case roomUsers st r of None \<Rightarrow> [] | Some m \<Rightarrow> map fst m)"

section \<open>Leaving a room\<close>

text \<open>
  \<open>handleLeaveRoom(socket, io)\<close>. The socket object is looked up by its id; the handler
  only runs for a socket that exists.
\<close>

definition handleLeaveRoom :: "string \<Rightarrow> server \<Rightarrow> server" where
  "handleLeaveRoom s st =
     (case sockets st s of None \<Rightarrow> st
      | Some k \<Rightarrow>
        (case roomId k of None \<Rightarrow> st
         | Some r \<Rightarrow>
           if r = [] then st
           else
             let st1 =
               (case roomUsers st r of None \<Rightarrow> st
                | Some m \<Rightarrow>
                    let m' = AList.delete s m;
                        sa = st\<lparr>roomUsers := (roomUsers st)(r \<mapsto> m')\<rparr>;
                        sb = (if roomHosts sa r = Some s then
                                (case map fst m' of [] \<Rightarrow> sa
                                 | newHostId # _ \<Rightarrow>
                                     emit (To_room r) ''host-changed''
                                       (JObj [(''hostSocketId'', JStr newHostId)])
                                       (sa\<lparr>roomHosts := (roomHosts sa)(r \<mapsto> newHostId)\<rparr>))
                              else sa);
                        sc = emit (To_room_except r s) ''user-left''
                               (JObj [(''user'', JObj [(''id'', JStr (u_id (user k))),
                                                       (''username'', JStr (username (user k))),
                                                       (''socketId'', JStr s)]),
                                      (''users'', users_json m'),
                                      (''hostSocketId'', opt_json (roomHosts sb r))]) sb
                    in if m' = [] then
                         sc\<lparr>roomUsers := (roomUsers sc)(r := None),
                            roomHosts := (roomHosts sc)(r := None),
                            roomSettings := (roomSettings sc)(r := None)\<rparr>
                       else sc)
             in set_socket s (\<lambda>k. k\<lparr>rooms := removeAll r (rooms k), roomId := None\<rparr>) st1))"

section \<open>Connecting and joining\<close>

text \<open>
  The authentication middleware: \<open>auth\<close> is the account found for the token, \<open>None\<close>
  when there is no token, no such account, or verification failed. A new socket is in
  the transport room named by its own id.
\<close>

definition guest :: "string \<Rightarrow> user_t" where
  "guest s = \<lparr> u_id = ''guest-'' @ s, username = ''Guest-'' @ take 6 s, isGuest = True \<rparr>"

definition connect :: "string \<Rightarrow> user_t option \<Rightarrow> server \<Rightarrow> server" where
  "connect s auth st =
     (case sockets st s of Some _ \<Rightarrow> st
      | None \<Rightarrow>
          st\<lparr>sockets := (sockets st)(s \<mapsto>
               \<lparr> socket_id = s, roomId = None,
                 user = (case auth of Some u \<Rightarrow> u | None \<Rightarrow> guest s),
                 displayName = None, voicePeerId = None, rooms = [s], connected = True,
                 voiceParticipants = [] \<rparr>)\<rparr>)"

text \<open>
  \<open>String.prototype.trim\<close> on strings of 8-bit characters: the six ASCII white space
  characters are stripped. The white space beyond ASCII that the script strips too
  (U+00A0, U+FEFF, the Unicode space separators and line terminators) is not modelled:
  a string here is a list of 8-bit characters and stands for an ASCII name.
\<close>

definition is_space :: "char \<Rightarrow> bool" where
  "is_space c = (c \<in> set [CHR '' '', CHR 0x09, CHR 0x0A, CHR 0x0B, CHR 0x0C, CHR 0x0D])"

definition trim :: "string \<Rightarrow> string" where
  "trim s = rev (dropWhile is_space (rev (dropWhile is_space s)))"

text \<open>What the two store lookups of a join return.\<close>

record roomState_t =
  codeFiles :: json
  canvasFiles :: json
  chatMessages :: json
  terminalHistory :: json
  activeCodeFileId :: json
  activeCanvasFileId :: json

record roomDoc_t =
  host :: "string option"

fun falsy :: "json \<Rightarrow> bool" where
  "falsy JUndef = True"
| "falsy JNull = True"
| "falsy (JBool b) = (\<not> b)"
| "falsy (JNum n) = (n = 0)"
| "falsy (JStr s) = (s = [])"
| "falsy (JArr _) = False"
| "falsy (JObj _) = False"

definition or_empty :: "json \<Rightarrow> json" where
  "or_empty x = (if falsy x then JArr [] else x)"

text \<open>
  The \<open>join-room\<close> handler up to its first \<open>await\<close>. The handler is then suspended
  (\<open>joining\<close>) until the store has answered; other events are handled meanwhile.
\<close>

definition join_room :: "string \<Rightarrow> string \<Rightarrow> string option \<Rightarrow> server \<Rightarrow> server" where
  "join_room s r dn st =
     (case sockets st s of None \<Rightarrow> st
      | Some k0 \<Rightarrow>
          let k1 = k0\<lparr>rooms := List.insert r (rooms k0), roomId := Some r\<rparr>;
              k = (case dn of None \<Rightarrow> k1
                   | Some d \<Rightarrow>
                       if d \<noteq> [] \<and> trim d \<noteq> []
                       then k1\<lparr>user := (user k1)\<lparr>username := trim d\<rparr>,
                               displayName := Some (trim d)\<rparr>
                       else k1);
              m = (case roomUsers st r of None \<Rightarrow> [] | Some m \<Rightarrow> m);
              info = \<lparr> ui_id = u_id (user k), ui_username = username (user k),
                       ui_isGuest = isGuest (user k), ui_socketId = s, ui_intent = None \<rparr>
          in st\<lparr>sockets := (sockets st)(s \<mapsto> k),
                roomUsers := (roomUsers st)(r \<mapsto> AList.update s info m),
                roomHosts := (case roomHosts st r of None \<Rightarrow> (roomHosts st)(r \<mapsto> s)
                              | Some _ \<Rightarrow> roomHosts st),
                roomSettings := (case roomSettings st r of
                                   None \<Rightarrow> (roomSettings st)(r \<mapsto> JBool False)
                                 | Some _ \<Rightarrow> roomSettings st),
                joining := joining st @ [(s, r)]\<rparr>)"

text \<open>
  The rest of the handler, run when both lookups have answered: \<open>db\<close> is \<open>None\<close> when
  one of them threw, else the room state and the room document (if any).
  Building the \<open>room-state\<close> payload throws when the room's membership map or settings
  are gone; the \<open>catch\<close> then reports the failure to the sender.
\<close>

definition join_failed :: "string \<Rightarrow> server \<Rightarrow> server" where
  "join_failed s st =
     emit (To_socket s) ''error'' (JObj [(''message'', JStr ''Failed to join room'')])
       (log_error ''Join room error:'' st)"

text \<open>The host decision (\<open>if (roomDoc) ... else ...\<close>).\<close>

definition negotiate_host :: "string \<Rightarrow> string \<Rightarrow> socket \<Rightarrow> roomDoc_t option \<Rightarrow> server \<Rightarrow> server" where
  "negotiate_host s r k roomDoc st =
     (case roomDoc of
        Some doc \<Rightarrow>
          if host doc = Some (u_id (user k))
          then st\<lparr>roomHosts := (roomHosts st)(r \<mapsto> s)\<rparr>
          else if roomHosts st r = None \<and> host doc = None
          then st\<lparr>roomHosts := (roomHosts st)(r \<mapsto> s)\<rparr>
          else st
      | None \<Rightarrow>
          if roomHosts st r = None
          then st\<lparr>roomHosts := (roomHosts st)(r \<mapsto> s)\<rparr>
          else st)"

text \<open>The \<open>room-state\<close> snapshot for the joiner and \<open>user-joined\<close> for the others.\<close>

definition announce_join :: "string \<Rightarrow> string \<Rightarrow> socket \<Rightarrow> roomState_t \<Rightarrow> server \<Rightarrow> server" where
  "announce_join s r k roomState st =
     (case roomUsers st r of None \<Rightarrow> join_failed s st
      | Some m \<Rightarrow>
     case roomSettings st r of None \<Rightarrow> join_failed s st
      | Some chatDisabled \<Rightarrow>
          emit (To_room_except r s) ''user-joined''
            (JObj [(''user'', JObj [(''id'', JStr (u_id (user k))),
                                    (''username'', JStr (username (user k))),
                                    (''socketId'', JStr s)]),
                   (''users'', users_json m),
                   (''hostSocketId'', opt_json (roomHosts st r))])
            (emit (To_socket s) ''room-state''
               (JObj [(''roomId'', JStr r),
                      (''state'', JObj
                         [(''codeFiles'', or_empty (codeFiles roomState)),
                          (''canvasFiles'', or_empty (canvasFiles roomState)),
                          (''chatMessages'', or_empty (chatMessages roomState)),
                          (''terminalHistory'', or_empty (terminalHistory roomState)),
                          (''activeCodeFileId'', activeCodeFileId roomState),
                          (''activeCanvasFileId'', activeCanvasFileId roomState)]),
                      (''users'', users_json m),
                      (''hostSocketId'', opt_json (roomHosts st r)),
                      (''chatDisabled'', chatDisabled)])
               st))"

definition join_resume ::
  "string \<Rightarrow> string \<Rightarrow> (roomState_t \<times> roomDoc_t option) option \<Rightarrow> server \<Rightarrow> server" where
  "join_resume s r db st0 =
     (let st = st0\<lparr>joining := remove1 (s, r) (joining st0)\<rparr> in
      case sockets st s of None \<Rightarrow> st
      | Some k \<Rightarrow>
        (case db of None \<Rightarrow> join_failed s st
         | Some found \<Rightarrow>
             announce_join s r k (fst found) (negotiate_host s r k (snd found) st)))"

section \<open>Host controls\<close>

definition isHost :: "server \<Rightarrow> socket \<Rightarrow> bool" where
  "isHost st k = (truthy (roomId k) \<and> roomHosts st (the (roomId k)) = Some (socket_id k))"

definition host_error :: "string \<Rightarrow> string \<Rightarrow> server \<Rightarrow> server" where
  "host_error s m st = emit (To_socket s) ''host-error'' (JObj [(''message'', JStr m)]) st"

definition host_kick_user :: "string \<Rightarrow> string \<Rightarrow> server \<Rightarrow> server" where
  "host_kick_user s target st =
     (case sockets st s of None \<Rightarrow> st
      | Some k \<Rightarrow>
          if \<not> isHost st k then host_error s ''Only the host can kick users'' st
          else
            (case sockets st target of None \<Rightarrow> st
             | Some t \<Rightarrow>
                 if connected t \<and> roomId t = roomId k
                 then handleLeaveRoom target
                        (emit (To_socket target) ''you-were-kicked''
                           (JObj [(''by'', JStr (username (user k)))]) st)
                 else st))"

definition host_mute_user :: "string \<Rightarrow> string \<Rightarrow> server \<Rightarrow> server" where
  "host_mute_user s target st =
     (case sockets st s of None \<Rightarrow> st
      | Some k \<Rightarrow>
          if \<not> isHost st k then host_error s ''Only the host can mute users'' st
          else
            emit (To_room (the (roomId k))) ''voice-mute''
              (JObj [(''peerId'', JNull), (''socketId'', JStr target),
                     (''isMuted'', JBool True), (''forcedByHost'', JBool True)])
              (emit (To_room target) ''you-were-muted''
                 (JObj [(''by'', JStr (username (user k)))]) st))"

definition host_transfer :: "string \<Rightarrow> string \<Rightarrow> server \<Rightarrow> server" where
  "host_transfer s target st =
     (case sockets st s of None \<Rightarrow> st
      | Some k \<Rightarrow>
          if \<not> isHost st k then host_error s ''Only the host can transfer host role'' st
          else
            let r = the (roomId k) in
            (case roomUsers st r of None \<Rightarrow> st
             | Some m \<Rightarrow>
                 if target \<in> fst ` set m
                 then emit (To_room r) ''host-changed''
                        (JObj [(''hostSocketId'', JStr target)])
                        (st\<lparr>roomHosts := (roomHosts st)(r \<mapsto> target)\<rparr>)
                 else st))"

definition host_toggle_chat :: "string \<Rightarrow> json \<Rightarrow> server \<Rightarrow> server" where
  "host_toggle_chat s disabled st =
     (case sockets st s of None \<Rightarrow> st
      | Some k \<Rightarrow>
          if \<not> isHost st k then host_error s ''Only the host can toggle chat'' st
          else
            let r = the (roomId k);
                st1 = (case roomSettings st r of None \<Rightarrow> st
                       | Some _ \<Rightarrow> st\<lparr>roomSettings := (roomSettings st)(r \<mapsto> disabled)\<rparr>)
            in emit (To_room r) ''chat-toggled''
                 (JObj [(''disabled'', disabled), (''by'', JStr (username (user k)))]) st1)"

definition leave_if_connected :: "string \<Rightarrow> server \<Rightarrow> server" where
  "leave_if_connected t st =
     (case sockets st t of None \<Rightarrow> st
      | Some k \<Rightarrow> if connected k then handleLeaveRoom t st else st)"

definition host_end_session :: "string \<Rightarrow> server \<Rightarrow> server" where
  "host_end_session s st =
     (case sockets st s of None \<Rightarrow> st
      | Some k \<Rightarrow>
          if \<not> isHost st k then host_error s ''Only the host can end the session'' st
          else
            let r = the (roomId k);
                st1 = emit (To_room r) ''session-ended''
                        (JObj [(''by'', JStr (username (user k)))]) st;
                roomSocketIds = (case roomUsers st1 r of None \<Rightarrow> [] | Some m \<Rightarrow> map fst m);
                st2 = fold leave_if_connected roomSocketIds st1
            in st2\<lparr>roomUsers := (roomUsers st2)(r := None),
                   roomHosts := (roomHosts st2)(r := None),
                   roomSettings := (roomSettings st2)(r := None)\<rparr>)"

section \<open>Disconnecting\<close>

text \<open>
  The transport takes the socket out of every room and out of \<open>io.sockets.sockets\<close>
  before it runs the \<open>disconnect\<close> handler.
\<close>

definition disconnect :: "string \<Rightarrow> server \<Rightarrow> server" where
  "disconnect s st =
     handleLeaveRoom s (set_socket s (\<lambda>k. k\<lparr>rooms := [], connected := False\<rparr>) st)"

section \<open>The write-back debouncer\<close>

text \<open>
  \<open>setTimeout\<close> and \<open>clearTimeout\<close>: a pending timeout is its handle, the room its
  callback was made for, and the time it is due. All timeouts of this module have the
  delay 2000 and the flush callback.
\<close>

definition clearTimeout :: "nat \<Rightarrow> server \<Rightarrow> server" where
  "clearTimeout h st = st\<lparr>timers := filter (\<lambda>t. fst t \<noteq> h) (timers st)\<rparr>"

definition setTimeout :: "string \<Rightarrow> server \<Rightarrow> server" where
  "setTimeout r st =
     st\<lparr>timers := timers st @ [(nextTimer st, r, now st + 2000)],
        nextTimer := Suc (nextTimer st)\<rparr>"

text \<open>
  \<open>debouncedSave(roomId, fileId = null, content = null)\<close>. A missing \<open>fileId\<close> is
  \<open>None\<close>; the default parameter turns an \<open>undefined\<close> content into \<open>null\<close>.
\<close>

definition buffered :: "string option \<Rightarrow> json \<Rightarrow> bool" where
  "buffered fileId content = (truthy fileId \<and> content \<noteq> JNull \<and> content \<noteq> JUndef)"

definition debouncedSave :: "string \<Rightarrow> string option \<Rightarrow> json \<Rightarrow> server \<Rightarrow> server" where
  "debouncedSave r fileId content st =
     (let st1 = (case saveTimers st r of None \<Rightarrow> st | Some h \<Rightarrow> clearTimeout h st);
          st2 = (if buffered fileId content then
                   let st1a = (case pendingSaves st1 r of
                                 Some _ \<Rightarrow> st1
                               | None \<Rightarrow>
                                   st1\<lparr>pendingSaves := (pendingSaves st1)(r \<mapsto> nextBuf st1),
                                       bufs := (bufs st1)(nextBuf st1 \<mapsto> []),
                                       nextBuf := Suc (nextBuf st1)\<rparr>);
                       a = the (pendingSaves st1a r);
                       m = (case bufs st1a a of None \<Rightarrow> [] | Some m \<Rightarrow> m)
                   in st1a\<lparr>bufs := (bufs st1a)(a \<mapsto> AList.update (the fileId) content m)\<rparr>
                 else st1);
          h = nextTimer st2
      in (setTimeout r st2)\<lparr>saveTimers := (saveTimers st2)(r \<mapsto> h)\<rparr>)"

text \<open>
  The timer callback. The update of one buffered file is issued to the store; the
  callback is then suspended until the store answers (\<open>flush_reply\<close>). With nothing
  buffered it only forgets the timer handle.
\<close>

definition issue_update :: "string \<Rightarrow> (string \<times> json) \<Rightarrow> server \<Rightarrow> server" where
  "issue_update r e st =
     st\<lparr>storeCalls := storeCalls st @ [Set_file_content r (fst e) (snd e)]\<rparr>"

definition flush_start :: "string \<Rightarrow> server \<Rightarrow> server" where
  "flush_start r st =
     (case pendingSaves st r of
        None \<Rightarrow> st\<lparr>saveTimers := (saveTimers st)(r := None)\<rparr>
      | Some a \<Rightarrow>
          (case (case bufs st a of None \<Rightarrow> [] | Some m \<Rightarrow> m) of
             [] \<Rightarrow> st\<lparr>saveTimers := (saveTimers st)(r := None)\<rparr>
           | e # _ \<Rightarrow>
               (issue_update r e st)
                 \<lparr>flushing := flushing st @ [\<lparr>fl_room = r, fl_buf = a, fl_pos = 0\<rparr>]\<rparr>))"

text \<open>A timeout fires when it is pending and due; it leaves the queue and its callback runs.\<close>

definition fire :: "nat \<Rightarrow> server \<Rightarrow> server" where
  "fire h st =
     (case find (\<lambda>t. fst t = h) (timers st) of
        None \<Rightarrow> st
      | Some t \<Rightarrow>
          if snd (snd t) \<le> now st then flush_start (fst (snd t)) (clearTimeout h st) else st)"

text \<open>
  The store answers the update the \<open>n\<close>-th suspended flush is waiting for. A failure
  leaves the loop through the \<open>catch\<close>: it is logged, the buffer stays. Otherwise the
  iteration goes on with the next entry of the buffer as it is now, and after the last
  one the room's entry of \<open>pendingSaves\<close> is deleted. Either way the callback ends by
  deleting the room's timer handle.
\<close>

definition flush_reply :: "nat \<Rightarrow> bool \<Rightarrow> server \<Rightarrow> server" where
  "flush_reply n ok st =
     (if n < length (flushing st) then
        let f = flushing st ! n;
            r = fl_room f;
            rest = take n (flushing st) @ drop (Suc n) (flushing st)
        in if \<not> ok then
             (log_error (''save error for room '' @ r @ '':'') st)
               \<lparr>flushing := rest, saveTimers := (saveTimers st)(r := None)\<rparr>
           else
             let m = (case bufs st (fl_buf f) of None \<Rightarrow> [] | Some m \<Rightarrow> m) in
             if Suc (fl_pos f) < length m then
               (issue_update r (m ! Suc (fl_pos f)) st)
                 \<lparr>flushing := (flushing st)[n := f\<lparr>fl_pos := Suc (fl_pos f)\<rparr>]\<rparr>
             else
               st\<lparr>flushing := rest,
                  pendingSaves := (pendingSaves st)(r := None),
                  saveTimers := (saveTimers st)(r := None)\<rparr>
      else st)"

definition advance :: "nat \<Rightarrow> server \<Rightarrow> server" where
  "advance d st = st\<lparr>now := now st + d\<rparr>"

section \<open>The event router\<close>

text \<open>
  The guard every room-scoped handler starts with:
  \<open>const roomId = socket.roomId; if (!roomId) return;\<close>
  \<open>current_room\<close> is the room id when the guard lets the event pass.
\<close>

definition current_room :: "socket \<Rightarrow> string option" where
  "current_room k =
     (case roomId k of None \<Rightarrow> None
      | Some r \<Rightarrow> if r = [] then None else Some r)"

text \<open>
  A store call awaited inside \<open>try\<close>/\<open>catch\<close> at the end of a handler: the call is
  issued, and a failure (\<open>ok = False\<close>) is only logged.
\<close>

definition store :: "store_call \<Rightarrow> string \<Rightarrow> bool \<Rightarrow> server \<Rightarrow> server" where
  "store c err ok st =
     (let st1 = st\<lparr>storeCalls := storeCalls st @ [c]\<rparr>
      in if ok then st1 else log_error err st1)"

text \<open>Object spread: \<open>{ ...a, ...b }\<close> keeps the order of \<open>a\<close>, with the values of \<open>b\<close>.\<close>

definition spread :: "(string \<times> json) list \<Rightarrow> (string \<times> json) list \<Rightarrow> (string \<times> json) list" where
  "spread a b = fold (\<lambda>kv. AList.update (fst kv) (snd kv)) b a"

text \<open>The identity fields the router attaches to a relayed event.\<close>

definition userId_json :: "socket \<Rightarrow> (string \<times> json) list" where
  "userId_json k = [(''userId'', JStr (u_id (user k)))]"

definition sender_json :: "socket \<Rightarrow> (string \<times> json) list" where
  "sender_json k = [(''userId'', JStr (u_id (user k))), (''username'', JStr (username (user k)))]"

definition code_change :: "string \<Rightarrow> string option \<Rightarrow> json \<Rightarrow> json \<Rightarrow> server \<Rightarrow> server" where
  "code_change s fileId content cursorPosition st =
     (case sockets st s of None \<Rightarrow> st
      | Some k \<Rightarrow>
     case current_room k of None \<Rightarrow> st
      | Some r \<Rightarrow>
       debouncedSave r fileId content
         (emit (To_room_except r s) ''code-change''
            (JObj ([(''fileId'', opt_json fileId), (''content'', content),
                    (''cursorPosition'', cursorPosition)] @ sender_json k)) st))"

definition file_create :: "string \<Rightarrow> json \<Rightarrow> bool \<Rightarrow> server \<Rightarrow> server" where
  "file_create s file ok st =
     (case sockets st s of None \<Rightarrow> st
      | Some k \<Rightarrow>
     case current_room k of None \<Rightarrow> st
      | Some r \<Rightarrow>
       store (Push_field r ''codeFiles'' file) ''File create save error:'' ok
         (emit (To_room_except r s) ''file-create''
            (JObj ([(''file'', file)] @ userId_json k)) st))"

definition file_delete :: "string \<Rightarrow> json \<Rightarrow> bool \<Rightarrow> server \<Rightarrow> server" where
  "file_delete s fileId ok st =
     (case sockets st s of None \<Rightarrow> st
      | Some k \<Rightarrow>
     case current_room k of None \<Rightarrow> st
      | Some r \<Rightarrow>
       store (Pull_field r ''codeFiles'' (JObj [(''id'', fileId)])) ''File delete save error:'' ok
         (emit (To_room_except r s) ''file-delete''
            (JObj ([(''fileId'', fileId)] @ userId_json k)) st))"

definition file_rename :: "string \<Rightarrow> json \<Rightarrow> json \<Rightarrow> bool \<Rightarrow> server \<Rightarrow> server" where
  "file_rename s fileId newName ok st =
     (case sockets st s of None \<Rightarrow> st
      | Some k \<Rightarrow>
     case current_room k of None \<Rightarrow> st
      | Some r \<Rightarrow>
       store (Set_file_name r fileId newName) ''File rename save error:'' ok
         (emit (To_room_except r s) ''file-rename''
            (JObj ([(''fileId'', fileId), (''newName'', newName)] @ userId_json k)) st))"

definition active_file_change :: "string \<Rightarrow> json \<Rightarrow> server \<Rightarrow> server" where
  "active_file_change s fileId st =
     (case sockets st s of None \<Rightarrow> st
      | Some k \<Rightarrow>
     case current_room k of None \<Rightarrow> st
      | Some r \<Rightarrow>
       emit (To_room_except r s) ''active-file-change''
         (JObj ([(''fileId'', fileId)] @ sender_json k)) st)"

text \<open>
  \<open>cursor-position\<close> has two listeners; both run, in the order they were registered.
  The second one keeps the position under a colour picked by the sum of the character
  codes of the name. \<open>charCodeAt\<close> reads UTF-16 code units; the sum here is over 8-bit
  characters, which is the same number for an ASCII name.
\<close>

definition cursorColors :: "string list" where
  "cursorColors = [''#FF6B6B'', ''#4ECDC4'', ''#FFE66D'', ''#A78BFA'',
                   ''#F472B6'', ''#34D399'', ''#60A5FA'', ''#FBBF24'']"

definition colorIndex :: "string \<Rightarrow> nat" where
  "colorIndex name = (\<Sum>c\<leftarrow>name. (of_char c :: nat)) mod length cursorColors"

definition cursor_name :: "string \<Rightarrow> socket \<Rightarrow> string" where
  "cursor_name s k = (if username (user k) \<noteq> [] then username (user k) else ''Guest-'' @ take 6 s)"

definition cursor_position_1 :: "string \<Rightarrow> json \<Rightarrow> json \<Rightarrow> json \<Rightarrow> server \<Rightarrow> server" where
  "cursor_position_1 s fileId position selection st =
     (case sockets st s of None \<Rightarrow> st
      | Some k \<Rightarrow>
     case current_room k of None \<Rightarrow> st
      | Some r \<Rightarrow>
       emit (To_room_except r s) ''cursor-position''
         (JObj ([(''fileId'', fileId), (''position'', position), (''selection'', selection)]
                @ sender_json k)) st)"

definition cursor_position_2 :: "string \<Rightarrow> json \<Rightarrow> server \<Rightarrow> server" where
  "cursor_position_2 s position st =
     (case sockets st s of None \<Rightarrow> st
      | Some k \<Rightarrow>
     case current_room k of None \<Rightarrow> st
      | Some r \<Rightarrow>
       let name = cursor_name s k;
           entry = [(''username'', JStr name),
                    (''color'', JStr (cursorColors ! colorIndex name)),
                    (''position'', position)];
           m = (case roomCursorPositions st r of None \<Rightarrow> [] | Some m \<Rightarrow> m)
       in emit (To_room_except r s) ''cursor-position''
            (JObj ((''socketId'', JStr s) # entry))
            (st\<lparr>roomCursorPositions :=
                   (roomCursorPositions st)(r \<mapsto> AList.update s entry m)\<rparr>))"

definition cursor_position :: "string \<Rightarrow> json \<Rightarrow> json \<Rightarrow> json \<Rightarrow> server \<Rightarrow> server" where
  "cursor_position s fileId position selection st =
     cursor_position_2 s position (cursor_position_1 s fileId position selection st)"

definition cursor_replay :: "string \<Rightarrow> (string \<times> (string \<times> json) list) \<Rightarrow> server \<Rightarrow> server" where
  "cursor_replay s c st =
     (if fst c \<noteq> s then
        emit (To_socket s) ''cursor-position''
          (JObj (spread [(''socketId'', JStr (fst c))] (snd c))) st
      else st)"

definition request_cursors :: "string \<Rightarrow> server \<Rightarrow> server" where
  "request_cursors s st =
     (case sockets st s of None \<Rightarrow> st
      | Some k \<Rightarrow>
     case current_room k of None \<Rightarrow> st
      | Some r \<Rightarrow>
       case roomCursorPositions st r of None \<Rightarrow> st
       | Some cursors \<Rightarrow> fold (cursor_replay s) cursors st)"

definition intent_update :: "string \<Rightarrow> json \<Rightarrow> server \<Rightarrow> server" where
  "intent_update s intent st =
     (case sockets st s of None \<Rightarrow> st
      | Some k \<Rightarrow>
     case current_room k of None \<Rightarrow> st
      | Some r \<Rightarrow>
       let st1 = (case roomUsers st r of None \<Rightarrow> st
                  | Some users \<Rightarrow>
                      (case map_of users s of None \<Rightarrow> st
                       | Some userInfo \<Rightarrow>
                           st\<lparr>roomUsers := (roomUsers st)(r \<mapsto>
                                AList.update s (userInfo\<lparr>ui_intent := Some intent\<rparr>) users)\<rparr>))
       in emit (To_room_except r s) ''intent-update''
            (JObj [(''socketId'', JStr s), (''username'', JStr (username (user k))),
                   (''intent'', intent)]) st1)"

definition tab_group_create :: "string \<Rightarrow> json \<Rightarrow> bool \<Rightarrow> server \<Rightarrow> server" where
  "tab_group_create s grp ok st =
     (case sockets st s of None \<Rightarrow> st
      | Some k \<Rightarrow>
     case current_room k of None \<Rightarrow> st
      | Some r \<Rightarrow>
       store (Push_field r ''tabGroups'' grp) ''Tab group create error:'' ok
         (emit (To_room_except r s) ''tab-group-create'' (JObj [(''group'', grp)]) st))"

definition tab_group_update :: "string \<Rightarrow> json \<Rightarrow> json \<Rightarrow> server \<Rightarrow> server" where
  "tab_group_update s groupId updates st =
     (case sockets st s of None \<Rightarrow> st
      | Some k \<Rightarrow>
     case current_room k of None \<Rightarrow> st
      | Some r \<Rightarrow>
       emit (To_room_except r s) ''tab-group-update''
         (JObj [(''groupId'', groupId), (''updates'', updates)]) st)"

definition tab_group_delete :: "string \<Rightarrow> json \<Rightarrow> bool \<Rightarrow> server \<Rightarrow> server" where
  "tab_group_delete s groupId ok st =
     (case sockets st s of None \<Rightarrow> st
      | Some k \<Rightarrow>
     case current_room k of None \<Rightarrow> st
      | Some r \<Rightarrow>
       store (Pull_field r ''tabGroups'' (JObj [(''id'', groupId)])) ''Tab group delete error:'' ok
         (emit (To_room_except r s) ''tab-group-delete'' (JObj [(''groupId'', groupId)]) st))"

definition canvas_object_add :: "string \<Rightarrow> json \<Rightarrow> json \<Rightarrow> json \<Rightarrow> server \<Rightarrow> server" where
  "canvas_object_add s canvasId object objectId st =
     (case sockets st s of None \<Rightarrow> st
      | Some k \<Rightarrow>
     case current_room k of None \<Rightarrow> st
      | Some r \<Rightarrow>
       emit (To_room_except r s) ''canvas-object-add''
         (JObj ([(''canvasId'', canvasId), (''object'', object), (''objectId'', objectId)]
                @ userId_json k)) st)"

definition canvas_object_modify :: "string \<Rightarrow> json \<Rightarrow> json \<Rightarrow> json \<Rightarrow> server \<Rightarrow> server" where
  "canvas_object_modify s canvasId objectId changes st =
     (case sockets st s of None \<Rightarrow> st
      | Some k \<Rightarrow>
     case current_room k of None \<Rightarrow> st
      | Some r \<Rightarrow>
       emit (To_room_except r s) ''canvas-object-modify''
         (JObj ([(''canvasId'', canvasId), (''objectId'', objectId), (''changes'', changes)]
                @ userId_json k)) st)"

definition canvas_object_delete :: "string \<Rightarrow> json \<Rightarrow> json \<Rightarrow> server \<Rightarrow> server" where
  "canvas_object_delete s canvasId objectId st =
     (case sockets st s of None \<Rightarrow> st
      | Some k \<Rightarrow>
     case current_room k of None \<Rightarrow> st
      | Some r \<Rightarrow>
       emit (To_room_except r s) ''canvas-object-delete''
         (JObj ([(''canvasId'', canvasId), (''objectId'', objectId)] @ userId_json k)) st)"

definition canvas_path_create :: "string \<Rightarrow> json \<Rightarrow> json \<Rightarrow> server \<Rightarrow> server" where
  "canvas_path_create s canvasId pathData st =
     (case sockets st s of None \<Rightarrow> st
      | Some k \<Rightarrow>
     case current_room k of None \<Rightarrow> st
      | Some r \<Rightarrow>
       emit (To_room_except r s) ''canvas-path-create''
         (JObj ([(''canvasId'', canvasId), (''pathData'', pathData)] @ userId_json k)) st)"

text \<open>
  \<open>canvas-full-sync\<close> has two listeners as well. The payload is an object, given by its
  fields; a missing field reads as \<open>undefined\<close>.
\<close>

definition field :: "(string \<times> json) list \<Rightarrow> string \<Rightarrow> json" where
  "field fs n = (case map_of fs n of None \<Rightarrow> JUndef | Some v \<Rightarrow> v)"

definition canvas_full_sync_1 :: "string \<Rightarrow> (string \<times> json) list \<Rightarrow> bool \<Rightarrow> server \<Rightarrow> server" where
  "canvas_full_sync_1 s payload ok st =
     (case sockets st s of None \<Rightarrow> st
      | Some k \<Rightarrow>
     case current_room k of None \<Rightarrow> st
      | Some r \<Rightarrow>
       let st1 = emit (To_room_except r s) ''canvas-full-sync''
                   (JObj (spread payload (userId_json k))) st
       in if \<not> falsy (field payload ''fabricJSON'') \<and> \<not> falsy (field payload ''canvasId'')
          then store (Set_canvas_json r (field payload ''canvasId'') (field payload ''fabricJSON''))
                 ''Canvas save error:'' ok st1
          else st1)"

definition canvas_full_sync_2 :: "string \<Rightarrow> (string \<times> json) list \<Rightarrow> bool \<Rightarrow> server \<Rightarrow> server" where
  "canvas_full_sync_2 s data ok st =
     (case sockets st s of None \<Rightarrow> st
      | Some k \<Rightarrow>
     case current_room k of None \<Rightarrow> st
      | Some r \<Rightarrow>
       let st1 = emit (To_room_except r s) ''canvas-full-sync'' (JObj data) st
       in if field data ''type'' = JStr ''full-canvas'' \<and> \<not> falsy (field data ''data'')
          then store (Set_first_canvas_json r (field data ''data'')) ''Canvas save error:'' ok st1
          else st1)"

definition canvas_full_sync ::
  "string \<Rightarrow> (string \<times> json) list \<Rightarrow> bool \<Rightarrow> bool \<Rightarrow> server \<Rightarrow> server" where
  "canvas_full_sync s payload ok1 ok2 st =
     canvas_full_sync_2 s payload ok2 (canvas_full_sync_1 s payload ok1 st)"

definition canvas_file_create :: "string \<Rightarrow> json \<Rightarrow> bool \<Rightarrow> server \<Rightarrow> server" where
  "canvas_file_create s file ok st =
     (case sockets st s of None \<Rightarrow> st
      | Some k \<Rightarrow>
     case current_room k of None \<Rightarrow> st
      | Some r \<Rightarrow>
       store (Push_field r ''canvasFiles'' file) ''Canvas file create error:'' ok
         (emit (To_room_except r s) ''canvas-file-create'' (JObj [(''file'', file)]) st))"

definition canvas_file_switch :: "string \<Rightarrow> json \<Rightarrow> server \<Rightarrow> server" where
  "canvas_file_switch s canvasId st =
     (case sockets st s of None \<Rightarrow> st
      | Some k \<Rightarrow>
     case current_room k of None \<Rightarrow> st
      | Some r \<Rightarrow>
       emit (To_room_except r s) ''canvas-file-switch''
         (JObj ([(''canvasId'', canvasId)] @ sender_json k)) st)"

text \<open>
  \<open>chat-message\<close>: \<open>t\<close> and \<open>rnd\<close> stand for the clock reading and the random suffix of
  the message id, \<open>ok\<close> for whether the store accepted the append.
\<close>

definition chat_message :: "string \<Rightarrow> json \<Rightarrow> string \<Rightarrow> string \<Rightarrow> bool \<Rightarrow> server \<Rightarrow> server" where
  "chat_message s message t rnd ok st =
     (case sockets st s of None \<Rightarrow> st
      | Some k \<Rightarrow>
     case current_room k of None \<Rightarrow> st
      | Some r \<Rightarrow>
       let chatMessage = JObj ([(''id'', JStr (''msg-'' @ t @ ''-'' @ rnd))] @ sender_json k @
                               [(''message'', message), (''timestamp'', JStr t)])
       in store (Push_capped r ''chatMessages'' chatMessage 100) ''Chat save error:'' ok
            (emit (To_room r) ''chat-message'' chatMessage st))"

definition terminal_output :: "string \<Rightarrow> json \<Rightarrow> bool \<Rightarrow> server \<Rightarrow> server" where
  "terminal_output s entry ok st =
     (case sockets st s of None \<Rightarrow> st
      | Some k \<Rightarrow>
     case current_room k of None \<Rightarrow> st
      | Some r \<Rightarrow>
       store (Push_capped r ''terminalHistory'' entry 50) ''Terminal save error:'' ok
         (emit (To_room_except r s) ''terminal-output'' (JObj [(''entry'', entry)]) st))"

section \<open>Voice\<close>

text \<open>
  The voice events have two listeners each. The first \<open>voice-join\<close> falls back to the
  room id of the payload when the socket has none; the second listeners prefer the
  payload's room id. \<open>a || b\<close> on room ids:
\<close>

definition or_room :: "string option \<Rightarrow> string option \<Rightarrow> string option" where
  "or_room a b = (if truthy a then a else b)"

definition voicePeer_json :: "voicePeer \<Rightarrow> json" where
  "voicePeer_json p =
     JObj [(''peerId'', opt_json (vp_peerId p)), (''socketId'', JStr (vp_socketId p)),
           (''isMuted'', vp_isMuted p), (''username'', JStr (vp_username p))]"

definition voice_join_1 :: "string \<Rightarrow> string option \<Rightarrow> string option \<Rightarrow> server \<Rightarrow> server" where
  "voice_join_1 s peerId voiceRoomId st =
     (case sockets st s of None \<Rightarrow> st
      | Some k \<Rightarrow>
          if \<not> truthy (or_room (roomId k) voiceRoomId) then st
          else
            let r = the (or_room (roomId k) voiceRoomId);
                voiceRoom = (case voiceRooms st r of None \<Rightarrow> [] | Some v \<Rightarrow> v);
                st1 = emit (To_socket s) ''voice-participants''
                        (JObj [(''participants'',
                                JArr (map voicePeer_json
                                        (filter (\<lambda>p. vp_peerId p \<noteq> peerId) voiceRoom)))]) st;
                voiceRoom' = (if find (\<lambda>p. vp_peerId p = peerId) voiceRoom = None
                              then voiceRoom @ [\<lparr> vp_peerId = peerId, vp_socketId = s,
                                                  vp_isMuted = JBool True,
                                                  vp_username = username (user k) \<rparr>]
                              else voiceRoom);
                st2 = st1\<lparr>voiceRooms := (voiceRooms st1)(r \<mapsto> voiceRoom'),
                          sockets := (sockets st1)(s \<mapsto> k\<lparr>voicePeerId := peerId\<rparr>)\<rparr>
            in emit (To_room r) ''voice-join''
                 (JObj [(''peerId'', opt_json peerId), (''socketId'', JStr s),
                        (''username'', JStr (username (user k)))]) st2)"

text \<open>
  The second listener reads \<open>socket.username\<close>, which nothing sets: the field goes out
  as \<open>undefined\<close>. Its roster is a set of peer ids in insertion order.
\<close>

definition set_add :: "'a \<Rightarrow> 'a list \<Rightarrow> 'a list" where
  "set_add x xs = (if x \<in> set xs then xs else xs @ [x])"

definition voice_join_2 :: "string \<Rightarrow> string option \<Rightarrow> string option \<Rightarrow> server \<Rightarrow> server" where
  "voice_join_2 s peerId voiceRoomId st =
     (case sockets st s of None \<Rightarrow> st
      | Some k \<Rightarrow>
          if \<not> truthy (or_room voiceRoomId (roomId k)) then st
          else
            let r = the (or_room voiceRoomId (roomId k));
                ps = set_add (opt_json peerId)
                       (case map_of (voiceParticipants k) r of None \<Rightarrow> [] | Some ps \<Rightarrow> ps);
                st1 = st\<lparr>sockets := (sockets st)(s \<mapsto>
                           k\<lparr>voiceParticipants := AList.update r ps (voiceParticipants k)\<rparr>)\<rparr>;
                st2 = emit (To_room_except r s) ''voice-join''
                        (JObj [(''peerId'', opt_json peerId), (''socketId'', JStr s),
                               (''username'', JUndef)]) st1;
                existing = filter (\<lambda>p. p \<noteq> opt_json peerId) ps
            in if existing \<noteq> [] then
                 emit (To_socket s) ''voice-participants''
                   (JObj [(''participants'', JArr existing)]) st2
               else st2)"

definition voice_join :: "string \<Rightarrow> string option \<Rightarrow> string option \<Rightarrow> server \<Rightarrow> server" where
  "voice_join s peerId voiceRoomId st =
     voice_join_2 s peerId voiceRoomId (voice_join_1 s peerId voiceRoomId st)"

text \<open>\<open>findIndex\<close> and \<open>splice(idx, 1)\<close>: the first participant with the peer id goes.\<close>

fun remove_peer :: "string option \<Rightarrow> voicePeer list \<Rightarrow> voicePeer list" where
  "remove_peer p [] = []"
| "remove_peer p (x # xs) = (if vp_peerId x = p then xs else x # remove_peer p xs)"

definition voice_leave_1 :: "string \<Rightarrow> string option \<Rightarrow> server \<Rightarrow> server" where
  "voice_leave_1 s peerId st =
     (case sockets st s of None \<Rightarrow> st
      | Some k \<Rightarrow>
     case current_room k of None \<Rightarrow> st
      | Some r \<Rightarrow>
       let st1 = (case voiceRooms st r of None \<Rightarrow> st
                  | Some v \<Rightarrow> st\<lparr>voiceRooms := (voiceRooms st)(r \<mapsto> remove_peer peerId v)\<rparr>);
           st2 = st1\<lparr>sockets := (sockets st1)(s \<mapsto> k\<lparr>voicePeerId := None\<rparr>)\<rparr>
       in emit (To_room r) ''voice-leave'' (JObj [(''peerId'', opt_json peerId)]) st2)"

definition voice_leave_2 :: "string \<Rightarrow> string option \<Rightarrow> string option \<Rightarrow> server \<Rightarrow> server" where
  "voice_leave_2 s peerId voiceRoomId st =
     (case sockets st s of None \<Rightarrow> st
      | Some k \<Rightarrow>
          if \<not> truthy (or_room voiceRoomId (roomId k)) then st
          else
            let r = the (or_room voiceRoomId (roomId k));
                st1 = (case map_of (voiceParticipants k) r of None \<Rightarrow> st
                       | Some ps \<Rightarrow>
                           st\<lparr>sockets := (sockets st)(s \<mapsto>
                                k\<lparr>voiceParticipants :=
                                    AList.update r (removeAll (opt_json peerId) ps)
                                      (voiceParticipants k)\<rparr>)\<rparr>)
            in emit (To_room_except r s) ''voice-leave''
                 (JObj [(''peerId'', opt_json peerId)]) st1)"

definition voice_leave :: "string \<Rightarrow> string option \<Rightarrow> string option \<Rightarrow> server \<Rightarrow> server" where
  "voice_leave s peerId voiceRoomId st =
     voice_leave_2 s peerId voiceRoomId (voice_leave_1 s peerId st)"

text \<open>\<open>find\<close> and the assignment to the participant found: the first match is updated.\<close>

fun mute_peer :: "string option \<Rightarrow> json \<Rightarrow> voicePeer list \<Rightarrow> voicePeer list" where
  "mute_peer p b [] = []"
| "mute_peer p b (x # xs) =
     (if vp_peerId x = p then x\<lparr>vp_isMuted := b\<rparr> # xs else x # mute_peer p b xs)"

definition voice_mute_1 :: "string \<Rightarrow> string option \<Rightarrow> json \<Rightarrow> server \<Rightarrow> server" where
  "voice_mute_1 s peerId isMuted st =
     (case sockets st s of None \<Rightarrow> st
      | Some k \<Rightarrow>
     case current_room k of None \<Rightarrow> st
      | Some r \<Rightarrow>
       let st1 = (case voiceRooms st r of None \<Rightarrow> st
                  | Some v \<Rightarrow> st\<lparr>voiceRooms := (voiceRooms st)(r \<mapsto> mute_peer peerId isMuted v)\<rparr>)
       in emit (To_room r) ''voice-mute''
            (JObj [(''peerId'', opt_json peerId), (''isMuted'', isMuted)]) st1)"

definition voice_mute_2 :: "string \<Rightarrow> string option \<Rightarrow> json \<Rightarrow> string option \<Rightarrow> server \<Rightarrow> server" where
  "voice_mute_2 s peerId isMuted voiceRoomId st =
     (case sockets st s of None \<Rightarrow> st
      | Some k \<Rightarrow>
          if \<not> truthy (or_room voiceRoomId (roomId k)) then st
          else
            emit (To_room_except (the (or_room voiceRoomId (roomId k))) s) ''voice-mute''
              (JObj [(''peerId'', opt_json peerId), (''isMuted'', isMuted)]) st)"

definition voice_mute :: "string \<Rightarrow> string option \<Rightarrow> json \<Rightarrow> string option \<Rightarrow> server \<Rightarrow> server" where
  "voice_mute s peerId isMuted voiceRoomId st =
     voice_mute_2 s peerId isMuted voiceRoomId (voice_mute_1 s peerId isMuted st)"

section \<open>Events and runs\<close>

text \<open>
  What a client can send. Where a handler awaits the store and only logs a failure, the
  event carries the outcome of that store call; \<open>Chat_message\<close> also carries the clock
  reading and the random suffix of its id.

  Every constructor with arguments stands for an event sent with a payload object: the
  arguments are its fields (\<open>JUndef\<close> or \<open>None\<close> for a field that is absent). The
  listeners of these events destructure their argument in the parameter list, before the
  room guard, so an event sent with no payload or with \<open>null\<close> throws there and reaches
  no guard; such events are not in the datatype. The room id of \<open>join-room\<close> and the
  target of a host command are strings. \<open>leave-room\<close>, \<open>request-cursors\<close> and
  \<open>host-end-session\<close> take no argument.
\<close>

datatype client_event =
    Join_room string "string option"
  | Leave_room
  | Code_change "string option" json json
  | File_create json bool
  | File_delete json bool
  | File_rename json json bool
  | Active_file_change json
  | Cursor_position json json json
  | Intent_update json
  | Tab_group_create json bool
  | Tab_group_update json json
  | Tab_group_delete json bool
  | Canvas_object_add json json json
  | Canvas_object_modify json json json
  | Canvas_object_delete json json
  | Canvas_path_create json json
  | Canvas_full_sync "(string \<times> json) list" bool bool
  | Canvas_file_create json bool
  | Canvas_file_switch json
  | Chat_message json string string bool
  | Voice_join "string option" "string option"
  | Voice_leave "string option" "string option"
  | Voice_mute "string option" json "string option"
  | Terminal_output json bool
  | Request_cursors
  | Host_kick_user string
  | Host_mute_user string
  | Host_transfer string
  | Host_toggle_chat json
  | Host_end_session

primrec on :: "string \<Rightarrow> client_event \<Rightarrow> server \<Rightarrow> server" where
  "on s (Join_room r dn) = join_room s r dn"
| "on s Leave_room = handleLeaveRoom s"
| "on s (Code_change fileId content cursorPosition) = code_change s fileId content cursorPosition"
| "on s (File_create file ok) = file_create s file ok"
| "on s (File_delete fileId ok) = file_delete s fileId ok"
| "on s (File_rename fileId newName ok) = file_rename s fileId newName ok"
| "on s (Active_file_change fileId) = active_file_change s fileId"
| "on s (Cursor_position fileId position selection) = cursor_position s fileId position selection"
| "on s (Intent_update intent) = intent_update s intent"
| "on s (Tab_group_create g ok) = tab_group_create s g ok"
| "on s (Tab_group_update groupId updates) = tab_group_update s groupId updates"
| "on s (Tab_group_delete groupId ok) = tab_group_delete s groupId ok"
| "on s (Canvas_object_add canvasId object objectId) = canvas_object_add s canvasId object objectId"
| "on s (Canvas_object_modify canvasId objectId changes) =
     canvas_object_modify s canvasId objectId changes"
| "on s (Canvas_object_delete canvasId objectId) = canvas_object_delete s canvasId objectId"
| "on s (Canvas_path_create canvasId pathData) = canvas_path_create s canvasId pathData"
| "on s (Canvas_full_sync payload ok1 ok2) = canvas_full_sync s payload ok1 ok2"
| "on s (Canvas_file_create file ok) = canvas_file_create s file ok"
| "on s (Canvas_file_switch canvasId) = canvas_file_switch s canvasId"
| "on s (Chat_message message t rnd ok) = chat_message s message t rnd ok"
| "on s (Voice_join peerId voiceRoomId) = voice_join s peerId voiceRoomId"
| "on s (Voice_leave peerId voiceRoomId) = voice_leave s peerId voiceRoomId"
| "on s (Voice_mute peerId isMuted voiceRoomId) = voice_mute s peerId isMuted voiceRoomId"
| "on s (Terminal_output entry ok) = terminal_output s entry ok"
| "on s Request_cursors = request_cursors s"
| "on s (Host_kick_user target) = host_kick_user s target"
| "on s (Host_mute_user target) = host_mute_user s target"
| "on s (Host_transfer target) = host_transfer s target"
| "on s (Host_toggle_chat disabled) = host_toggle_chat s disabled"
| "on s Host_end_session = host_end_session s"

text \<open>
  What the event loop dispatches, one at a time: a new connection, an event of a
  connected client, a disconnect, the store answering a suspended join or a suspended
  flush, a timeout, the passing of time.
\<close>

datatype event =
    Connect string "user_t option"
  | Client string client_event
  | Disconnect string
  | Join_resume string string "(roomState_t \<times> roomDoc_t option) option"
  | Fire nat
  | Flush_reply nat bool
  | Advance nat

primrec step :: "event \<Rightarrow> server \<Rightarrow> server" where
  "step (Connect s auth) st = connect s auth st"
| "step (Client s e) st = (if is_connected st s then on s e st else st)"
| "step (Disconnect s) st = (if is_connected st s then disconnect s st else st)"
| "step (Join_resume s r db) st =
     (if (s, r) \<in> set (joining st) then join_resume s r db st else st)"
| "step (Fire h) st = fire h st"
| "step (Flush_reply n ok) st = flush_reply n ok st"
| "step (Advance d) st = advance d st"

definition run :: "event list \<Rightarrow> server \<Rightarrow> server" where
  "run es st = fold step es st"

section \<open>Example runs\<close>

definition rs0 :: roomState_t where
  "rs0 = \<lparr> codeFiles = JArr [], canvasFiles = JArr [], chatMessages = JArr [],
           terminalHistory = JArr [], activeCodeFileId = JUndef, activeCanvasFileId = JUndef \<rparr>"

definition alice :: user_t where
  "alice = \<lparr> u_id = ''u1'', username = ''alice'', isGuest = False \<rparr>"

text \<open>The account \<open>alice\<close> and two guests in the room \<open>ABC123\<close>, which \<open>alice\<close> owns.\<close>

definition three_in_room :: "event list" where
  "three_in_room =
     [Connect ''a'' (Some alice),
      Client ''a'' (Join_room ''ABC123'' None),
      Join_resume ''a'' ''ABC123'' (Some (rs0, Some \<lparr>host = Some ''u1''\<rparr>)),
      Connect ''b'' None,
      Client ''b'' (Join_room ''ABC123'' (Some ''bob'')),
      Join_resume ''b'' ''ABC123'' (Some (rs0, Some \<lparr>host = Some ''u1''\<rparr>)),
      Connect ''c'' None,
      Client ''c'' (Join_room ''ABC123'' None),
      Join_resume ''c'' ''ABC123'' (Some (rs0, Some \<lparr>host = Some ''u1''\<rparr>))]"

text \<open>A guest is in the owner's room first; the owner has connected but not joined yet.\<close>

definition guest_first :: "event list" where
  "guest_first =
     [Connect ''b'' None,
      Client ''b'' (Join_room ''ABC123'' None),
      Join_resume ''b'' ''ABC123'' (Some (rs0, Some \<lparr>host = Some ''u1''\<rparr>)),
      Connect ''a'' (Some alice)]"

text \<open>A guest joins a room and disconnects while the join handler waits for the store.\<close>

definition join_then_drop :: "event list" where
  "join_then_drop =
     [Connect ''a'' None,
      Client ''a'' (Join_room ''R'' None),
      Disconnect ''a'',
      Join_resume ''a'' ''R'' (Some (rs0, None))]"

text \<open>A connection joins room \<open>A\<close> and then room \<open>B\<close>.\<close>

definition join_two :: "event list" where
  "join_two =
     [Connect ''a'' None,
      Client ''a'' (Join_room ''A'' None),
      Join_resume ''a'' ''A'' (Some (rs0, None)),
      Client ''a'' (Join_room ''B'' None),
      Join_resume ''a'' ''B'' (Some (rs0, None))]"

text \<open>
  The guest \<open>a\<close> opens room \<open>A\<close> and is its host, \<open>b\<close> joins it; then \<open>a\<close> joins room
  \<open>B\<close> without leaving \<open>A\<close>.
\<close>

definition host_elsewhere :: "event list" where
  "host_elsewhere =
     [Connect ''a'' None,
      Client ''a'' (Join_room ''A'' None),
      Join_resume ''a'' ''A'' (Some (rs0, None)),
      Connect ''b'' None,
      Client ''b'' (Join_room ''A'' None),
      Join_resume ''b'' ''A'' (Some (rs0, None)),
      Client ''a'' (Join_room ''B'' None),
      Join_resume ''a'' ''B'' (Some (rs0, None))]"

text \<open>Two guests join the room whose id is the empty string.\<close>

definition nameless_room :: "event list" where
  "nameless_room =
     [Connect ''a'' None,
      Client ''a'' (Join_room [] None),
      Join_resume ''a'' [] (Some (rs0, None)),
      Connect ''b'' None,
      Client ''b'' (Join_room [] None),
      Join_resume ''b'' [] (Some (rs0, None))]"

text \<open>The names of the events a step has sent.\<close>

definition sent_by :: "event \<Rightarrow> server \<Rightarrow> string list" where
  "sent_by e st = map (\<lambda>m. fst (snd m)) (drop (length (outbox st)) (outbox (step e st)))"


section \<open>Which events need a room\<close>

text \<open>
  The events whose listeners all start with the guard on \<open>socket.roomId\<close> alone.
  The second listeners of the voice events take the room id of the payload first, so
  these events are dropped only when the payload has none either. \<open>join-room\<close> sets
  the room, and the host commands answer a connection without a room with
  \<open>host-error\<close>.
\<close>

primrec dropped_without_room :: "client_event \<Rightarrow> bool" where
  "dropped_without_room (Join_room r dn) = False"
| "dropped_without_room Leave_room = True"
| "dropped_without_room (Code_change fileId content cursorPosition) = True"
| "dropped_without_room (File_create file ok) = True"
| "dropped_without_room (File_delete fileId ok) = True"
| "dropped_without_room (File_rename fileId newName ok) = True"
| "dropped_without_room (Active_file_change fileId) = True"
| "dropped_without_room (Cursor_position fileId position selection) = True"
| "dropped_without_room (Intent_update intent) = True"
| "dropped_without_room (Tab_group_create g ok) = True"
| "dropped_without_room (Tab_group_update groupId updates) = True"
| "dropped_without_room (Tab_group_delete groupId ok) = True"
| "dropped_without_room (Canvas_object_add canvasId object objectId) = True"
| "dropped_without_room (Canvas_object_modify canvasId objectId changes) = True"
| "dropped_without_room (Canvas_object_delete canvasId objectId) = True"
| "dropped_without_room (Canvas_path_create canvasId pathData) = True"
| "dropped_without_room (Canvas_full_sync payload ok1 ok2) = True"
| "dropped_without_room (Canvas_file_create file ok) = True"
| "dropped_without_room (Canvas_file_switch canvasId) = True"
| "dropped_without_room (Chat_message message t rnd ok) = True"
| "dropped_without_room (Voice_join peerId voiceRoomId) = (\<not> truthy voiceRoomId)"
| "dropped_without_room (Voice_leave peerId voiceRoomId) = (\<not> truthy voiceRoomId)"
| "dropped_without_room (Voice_mute peerId isMuted voiceRoomId) = (\<not> truthy voiceRoomId)"
| "dropped_without_room (Terminal_output entry ok) = True"
| "dropped_without_room Request_cursors = True"
| "dropped_without_room (Host_kick_user target) = False"
| "dropped_without_room (Host_mute_user target) = False"
| "dropped_without_room (Host_transfer target) = False"
| "dropped_without_room (Host_toggle_chat disabled) = False"
| "dropped_without_room Host_end_session = False"

primrec host_command :: "client_event \<Rightarrow> string option" where
  "host_command (Join_room r dn) = None"
| "host_command Leave_room = None"
| "host_command (Code_change fileId content cursorPosition) = None"
| "host_command (File_create file ok) = None"
| "host_command (File_delete fileId ok) = None"
| "host_command (File_rename fileId newName ok) = None"
| "host_command (Active_file_change fileId) = None"
| "host_command (Cursor_position fileId position selection) = None"
| "host_command (Intent_update intent) = None"
| "host_command (Tab_group_create g ok) = None"
| "host_command (Tab_group_update groupId updates) = None"
| "host_command (Tab_group_delete groupId ok) = None"
| "host_command (Canvas_object_add canvasId object objectId) = None"
| "host_command (Canvas_object_modify canvasId objectId changes) = None"
| "host_command (Canvas_object_delete canvasId objectId) = None"
| "host_command (Canvas_path_create canvasId pathData) = None"
| "host_command (Canvas_full_sync payload ok1 ok2) = None"
| "host_command (Canvas_file_create file ok) = None"
| "host_command (Canvas_file_switch canvasId) = None"
| "host_command (Chat_message message t rnd ok) = None"
| "host_command (Voice_join peerId voiceRoomId) = None"
| "host_command (Voice_leave peerId voiceRoomId) = None"
| "host_command (Voice_mute peerId isMuted voiceRoomId) = None"
| "host_command (Terminal_output entry ok) = None"
| "host_command Request_cursors = None"
| "host_command (Host_kick_user target) = Some ''Only the host can kick users''"
| "host_command (Host_mute_user target) = Some ''Only the host can mute users''"
| "host_command (Host_transfer target) = Some ''Only the host can transfer host role''"
| "host_command (Host_toggle_chat disabled) = Some ''Only the host can toggle chat''"
| "host_command Host_end_session = Some ''Only the host can end the session''"

section \<open>Invariants of the room maps\<close>

text \<open>What the invariants below depend on: the keys of each membership map, the host
  assignments, the current room of each socket, and the suspended joins.\<close>

definition rooms_view ::
  "server \<Rightarrow> (string \<Rightarrow> string list) \<times> (string \<Rightarrow> string option) \<times>
            (string \<Rightarrow> string option option) \<times> (string \<times> string) list" where
  "rooms_view st =
     (member_ids st, roomHosts st, (\<lambda>s. map_option roomId (sockets st s)), joining st)"

text \<open>Every key of a room's membership map is a socket whose current room is that room.\<close>

definition at_home :: "server \<Rightarrow> bool" where
  "at_home st =
     (\<forall>r s. s \<in> set (member_ids st r) \<longrightarrow> (\<exists>k. sockets st s = Some k \<and> roomId k = Some r))"

text \<open>A connection id is a key of at most one room's membership map.\<close>

definition one_room :: "server \<Rightarrow> bool" where
  "one_room st =
     (\<forall>s r1 r2. s \<in> set (member_ids st r1) \<and> s \<in> set (member_ids st r2) \<longrightarrow> r1 = r2)"

text \<open>No connection's current room id is the empty string.\<close>

definition named_rooms :: "server \<Rightarrow> bool" where
  "named_rooms st = (\<forall>s k. sockets st s = Some k \<longrightarrow> roomId k \<noteq> Some [])"

text \<open>
  A \<open>join-room\<close> is fresh when it names a room by a non-empty string and comes from a
  connection that has no current room, as the guard \<open>!socket.roomId\<close> of the handlers
  reads it (the id is null or the empty string), or whose current room is the room it
  joins; a run has fresh joins when each of its joins is fresh in the state it arrives
  in. A \<open>join-room\<close> whose payload has no string \<open>roomId\<close> is not an event of the model.
\<close>

fun join_is_fresh :: "event \<Rightarrow> server \<Rightarrow> bool" where
  "join_is_fresh (Client s (Join_room r dn)) st =
     (r \<noteq> [] \<and>
      (case sockets st s of None \<Rightarrow> True
       | Some k \<Rightarrow> current_room k = None \<or> current_room k = Some r))"
| "join_is_fresh _ st = True"

fun fresh_joins :: "event list \<Rightarrow> server \<Rightarrow> bool" where
  "fresh_joins [] st = True"
| "fresh_joins (e # es) st = (join_is_fresh e st \<and> fresh_joins es (step e st))"

text \<open>A connection joins a room, leaves it and joins another.\<close>

definition join_leave_join :: "event list" where
  "join_leave_join =
     [Connect ''a'' None,
      Client ''a'' (Join_room ''A'' None),
      Join_resume ''a'' ''A'' (Some (rs0, None)),
      Client ''a'' Leave_room,
      Client ''a'' (Join_room ''B'' None),
      Join_resume ''a'' ''B'' (Some (rs0, None))]"

section \<open>Bursts of changes\<close>

text \<open>The content buffered for a room, in the order of the buffer.\<close>

definition pending :: "server \<Rightarrow> string \<Rightarrow> (string \<times> json) list" where
  "pending st r =
     (case pendingSaves st r of None \<Rightarrow> []
      | Some a \<Rightarrow> (case bufs st a of None \<Rightarrow> [] | Some m \<Rightarrow> m))"

text \<open>The pending timeouts made for a room.\<close>

definition room_timers :: "server \<Rightarrow> string \<Rightarrow> (nat \<times> string \<times> nat) list" where
  "room_timers st r = filter (\<lambda>t. fst (snd t) = r) (timers st)"

text \<open>
  A burst: calls of \<open>debouncedSave\<close> for one room, each after the given time has
  passed since the event before, and no other event of the room in between.
\<close>

fun burst :: "string \<Rightarrow> (nat \<times> string option \<times> json) list \<Rightarrow> server \<Rightarrow> server" where
  "burst r [] st = st"
| "burst r ((d, fileId, content) # cs) st = burst r cs (debouncedSave r fileId content (advance d st))"

text \<open>No timeout of the room is due at the moment a call of the burst arrives.\<close>

fun none_due :: "string \<Rightarrow> (nat \<times> string option \<times> json) list \<Rightarrow> server \<Rightarrow> bool" where
  "none_due r [] st = True"
| "none_due r ((d, fileId, content) # cs) st =
     (list_all (\<lambda>t. now st + d < snd (snd t)) (room_timers st r) \<and>
      none_due r cs (debouncedSave r fileId content (advance d st)))"

text \<open>The latest content a burst records for a file, if it records any.\<close>

fun latest :: "(nat \<times> string option \<times> json) list \<Rightarrow> string \<Rightarrow> json option" where
  "latest [] x = None"
| "latest ((d, fileId, content) # cs) x =
     (case latest cs x of
        Some c \<Rightarrow> Some c
      | None \<Rightarrow> if buffered fileId content \<and> fileId = Some x then Some content else None)"

text \<open>
  The room's timer handle is in step with the runtime: every pending timeout of the
  room is the one \<open>saveTimers\<close> holds, and no pending timeout has a handle that
  \<open>setTimeout\<close> is yet to give out.
\<close>

definition tracked :: "server \<Rightarrow> string \<Rightarrow> bool" where
  "tracked st r =
     (list_all (\<lambda>t. saveTimers st r = Some (fst t)) (room_timers st r) \<and>
      list_all (\<lambda>t. fst t < nextTimer st) (timers st))"


text \<open>
  A change arrives while the flush of the room's buffer waits for the store; a second
  one follows within the delay.
\<close>

definition edit_during_flush :: "event list" where
  "edit_during_flush =
     [Connect ''a'' None,
      Client ''a'' (Join_room ''R'' None),
      Join_resume ''a'' ''R'' (Some (rs0, None)),
      Client ''a'' (Code_change (Some ''f1'') (JStr ''old'') JNull),
      Advance 2000,
      Fire 0,
      Client ''a'' (Code_change (Some ''f1'') (JStr ''x'') JNull),
      Flush_reply 0 True,
      Advance 100,
      Client ''a'' (Code_change (Some ''f2'') (JStr ''y'') JNull)]"

definition edit_during_flush_end :: "event list" where
  "edit_during_flush_end =
     edit_during_flush @
     [Advance 1900, Fire 1, Flush_reply 0 True, Advance 100, Fire 2]"





section \<open>Joins that are not interleaved\<close>

text \<open>Every host assignment names a key of the room's membership map.\<close>

definition host_ok :: "server \<Rightarrow> bool" where
  "host_ok st = (\<forall>r h. roomHosts st r = Some h \<longrightarrow> h \<in> set (member_ids st r))"

text \<open>
  A run is serial when the store answers each \<open>join-room\<close> before the next event is
  handled: every \<open>join-room\<close> is followed at once by the resumption of that join, and
  no join is resumed elsewhere.
\<close>

definition joins :: "event \<Rightarrow> (string \<times> string) option" where
  "joins e = (case e of Client s (Join_room r dn) \<Rightarrow> Some (s, r) | _ \<Rightarrow> None)"

definition resumes :: "event \<Rightarrow> (string \<times> string) option" where
  "resumes e = (case e of Join_resume s r db \<Rightarrow> Some (s, r) | _ \<Rightarrow> None)"

fun serial :: "event list \<Rightarrow> bool" where
  "serial [] = True"
| "serial [e] = (resumes e = None)"
| "serial (e # e' # es) =
     (if joins e \<noteq> None then resumes e' = joins e \<and> serial es
      else resumes e = None \<and> serial (e' # es))"

section \<open>What sending and logging leave alone\<close>

lemma sockets_emit [simp]: "sockets (emit a e b st) = sockets st"
  by (simp add: emit_def)

lemma roomHosts_emit [simp]: "roomHosts (emit a e b st) = roomHosts st"
  by (simp add: emit_def)

lemma roomUsers_emit [simp]: "roomUsers (emit a e b st) = roomUsers st"
  by (simp add: emit_def)

lemma roomSettings_emit [simp]: "roomSettings (emit a e b st) = roomSettings st"
  by (simp add: emit_def)

lemma outbox_emit [simp]: "outbox (emit a e b st) = outbox st @ [(a, e, b)]"
  by (simp add: emit_def)

lemma storeCalls_emit [simp]: "storeCalls (emit a e b st) = storeCalls st"
  by (simp add: emit_def)

lemma joining_emit [simp]: "joining (emit a e b st) = joining st"
  by (simp add: emit_def)

lemma joining_log_error [simp]: "joining (log_error e st) = joining st"
  by (simp add: log_error_def)

lemma sockets_log_error [simp]: "sockets (log_error e st) = sockets st"
  by (simp add: log_error_def)

lemma roomHosts_log_error [simp]: "roomHosts (log_error e st) = roomHosts st"
  by (simp add: log_error_def)

lemma roomUsers_log_error [simp]: "roomUsers (log_error e st) = roomUsers st"
  by (simp add: log_error_def)

lemma outbox_log_error [simp]: "outbox (log_error e st) = outbox st"
  by (simp add: log_error_def)

lemma roomHosts_join_failed [simp]: "roomHosts (join_failed s st) = roomHosts st"
  by (simp add: join_failed_def)

lemma roomUsers_join_failed [simp]: "roomUsers (join_failed s st) = roomUsers st"
  by (simp add: join_failed_def)

lemma sockets_join_failed [simp]: "sockets (join_failed s st) = sockets st"
  by (simp add: join_failed_def)

lemma outbox_store [simp]: "outbox (store c err ok st) = outbox st"
  by (simp add: store_def log_error_def Let_def)

lemma storeCalls_store [simp]: "storeCalls (store c err ok st) = storeCalls st @ [c]"
  by (simp add: store_def log_error_def Let_def)

lemma roomSettings_store [simp]: "roomSettings (store c err ok st) = roomSettings st"
  by (simp add: store_def log_error_def Let_def)

lemma roomHosts_store [simp]: "roomHosts (store c err ok st) = roomHosts st"
  by (simp add: store_def log_error_def Let_def)

lemma roomUsers_store [simp]: "roomUsers (store c err ok st) = roomUsers st"
  by (simp add: store_def log_error_def Let_def)

lemma sockets_store [simp]: "sockets (store c err ok st) = sockets st"
  by (simp add: store_def log_error_def Let_def)

lemma joining_store [simp]: "joining (store c err ok st) = joining st"
  by (simp add: store_def log_error_def Let_def)

section \<open>Leaving twice\<close>

lemma leave_roomId_after:
  "sockets (handleLeaveRoom s st) s = Some k' \<Longrightarrow> \<not> truthy (roomId k')"
  unfolding handleLeaveRoom_def set_socket_def
  by (auto simp: Let_def emit_def split: option.splits if_splits list.splits)

lemma leave_no_room:
  "sockets st s = Some k \<Longrightarrow> \<not> truthy (roomId k) \<Longrightarrow> handleLeaveRoom s st = st"
  unfolding handleLeaveRoom_def
  by (cases "roomId k") auto

lemma leave_no_socket: "sockets st s = None \<Longrightarrow> handleLeaveRoom s st = st"
  unfolding handleLeaveRoom_def by simp

text \<open>
  C7: the leave procedure is idempotent. Running \<open>handleLeaveRoom\<close> a second time for the
  same connection returns the very state the first run left: the room maps are the same
  and nothing is added to the messages sent (no second \<open>user-left\<close>, no second
  \<open>host-changed\<close>) or to the error log. Running it for a connection that has no current
  room changes nothing at all.
\<close>

theorem handleLeaveRoom_idempotent:
  "handleLeaveRoom s (handleLeaveRoom s st) = handleLeaveRoom s st \<and>
   (\<forall>k. sockets st s = Some k \<and> \<not> truthy (roomId k) \<longrightarrow> handleLeaveRoom s st = st)"
proof (intro conjI allI impI)
  show "handleLeaveRoom s (handleLeaveRoom s st) = handleLeaveRoom s st"
  proof (cases "sockets (handleLeaveRoom s st) s")
    case None
    then show ?thesis by (rule leave_no_socket)
  next
    case (Some k')
    then show ?thesis using leave_roomId_after leave_no_room by blast
  qed
next
  fix k
  assume "sockets st s = Some k \<and> \<not> truthy (roomId k)"
  then show "handleLeaveRoom s st = st" using leave_no_room by blast
qed

theorem handleLeaveRoom_idempotent_witness:
  "(\<exists>k. sockets (connect ''a'' None init) ''a'' = Some k \<and> \<not> truthy (roomId k)) \<and>
   handleLeaveRoom ''a'' (connect ''a'' None init) = connect ''a'' None init"
  using handleLeaveRoom_idempotent [of "''a''" "connect ''a'' None init"]
  by (simp add: connect_def init_def)

section \<open>Host transfer to a stranger\<close>



section \<open>Host reclaim\<close>

lemma join_room_socket:
  "sockets st C = Some k \<Longrightarrow>
   \<exists>k'. sockets (join_room C R dn st) C = Some k' \<and> u_id (user k') = u_id (user k)"
  by (auto simp: join_room_def Let_def split: option.splits)

lemma roomHosts_announce_join [simp]: "roomHosts (announce_join s r k rs st) = roomHosts st"
  by (simp add: announce_join_def split: option.splits)

lemma roomUsers_announce_join [simp]: "roomUsers (announce_join s r k rs st) = roomUsers st"
  by (simp add: announce_join_def split: option.splits)

lemma sockets_announce_join [simp]: "sockets (announce_join s r k rs st) = sockets st"
  by (simp add: announce_join_def split: option.splits)

lemma roomUsers_negotiate_host [simp]: "roomUsers (negotiate_host s r k d st) = roomUsers st"
  by (simp add: negotiate_host_def split: option.splits)

lemma sockets_negotiate_host [simp]: "sockets (negotiate_host s r k d st) = sockets st"
  by (simp add: negotiate_host_def split: option.splits)

lemma join_resume_reclaim:
  assumes "sockets st C = Some k" and "host doc = Some (u_id (user k))"
  shows "roomHosts (join_resume C R (Some (rs, Some doc)) st) R = Some C"
  using assms
  by (simp add: join_resume_def negotiate_host_def)

text \<open>
  C4: when the store returns a room document whose owner is the identity of the joining
  connection \<open>C\<close>, the host assignment of the room is \<open>C\<close> as soon as the join handler
  has finished, whatever it was before: both when the handler resumes in any state the
  server may have reached meanwhile, and when it runs from \<open>join-room\<close> to its end
  without another event in between.
\<close>

theorem host_reclaim:
  assumes "sockets st C = Some k" and "host doc = Some (u_id (user k))"
  shows "roomHosts (join_resume C R (Some (rs, Some doc)) st) R = Some C \<and>
         roomHosts (join_resume C R (Some (rs, Some doc)) (join_room C R dn st)) R = Some C"
proof
  show "roomHosts (join_resume C R (Some (rs, Some doc)) st) R = Some C"
    using assms by (rule join_resume_reclaim)
  obtain k' where "sockets (join_room C R dn st) C = Some k'" "u_id (user k') = u_id (user k)"
    using join_room_socket [OF assms(1)] by blast
  then show "roomHosts (join_resume C R (Some (rs, Some doc)) (join_room C R dn st)) R = Some C"
    using assms(2) join_resume_reclaim [of "join_room C R dn st" C k' doc R rs] by simp
qed


theorem host_reclaim_witness:
  "sockets (run guest_first init) ''a'' = Some (the (sockets (run guest_first init) ''a'')) \<and>
   host \<lparr>host = Some ''u1''\<rparr> = Some (u_id (user (the (sockets (run guest_first init) ''a'')))) \<and>
   roomHosts (run guest_first init) ''ABC123'' = Some ''b'' \<and>
   roomHosts (join_resume ''a'' ''ABC123'' (Some (rs0, Some \<lparr>host = Some ''u1''\<rparr>))
                (run guest_first init)) ''ABC123'' = Some ''a'' \<and>
   roomHosts (join_resume ''a'' ''ABC123'' (Some (rs0, Some \<lparr>host = Some ''u1''\<rparr>))
                (join_room ''a'' ''ABC123'' None (run guest_first init))) ''ABC123'' = Some ''a''"
proof -
  let ?st = "run guest_first init"
  have 1: "sockets ?st ''a'' = Some (the (sockets ?st ''a''))"
    unfolding guest_first_def by code_simp
  have 2: "host \<lparr>host = Some ''u1''\<rparr> = Some (u_id (user (the (sockets ?st ''a''))))"
    unfolding guest_first_def by code_simp
  have 3: "roomHosts ?st ''ABC123'' = Some ''b''"
    unfolding guest_first_def by code_simp
  from host_reclaim [OF 1 2, of "''ABC123''" rs0 None] 1 2 3 show ?thesis by blast
qed

section \<open>Promotion when the host disconnects\<close>

lemma delete_other_nonempty:
  "x \<in> fst ` set m \<Longrightarrow> x \<noteq> C \<Longrightarrow> map fst (AList.delete C m) \<noteq> []"
  by (induction m) (auto split: if_splits)

lemma delete_keys: "set (map fst (AList.delete C m)) = fst ` set m - {C}"
  by (induction m) auto

text \<open>What handleLeaveRoom does when the leaving socket is the host and others remain.\<close>

lemma leave_promotes:
  assumes "sockets st C = Some k" and "roomId k = Some R" and "R \<noteq> []"
    and "roomHosts st R = Some C" and "roomUsers st R = Some m"
    and "map fst (AList.delete C m) = newHost # others"
  shows "handleLeaveRoom C st =
           (emit (To_room_except R C) ''user-left''
              (JObj [(''user'', JObj [(''id'', JStr (u_id (user k))),
                                      (''username'', JStr (username (user k))),
                                      (''socketId'', JStr C)]),
                     (''users'', users_json (AList.delete C m)),
                     (''hostSocketId'', JStr newHost)])
              (emit (To_room R) ''host-changed'' (JObj [(''hostSocketId'', JStr newHost)])
                 (st\<lparr>roomUsers := (roomUsers st)(R \<mapsto> AList.delete C m),
                     roomHosts := (roomHosts st)(R \<mapsto> newHost)\<rparr>)))
           \<lparr>sockets := (sockets st)(C \<mapsto> k\<lparr>rooms := removeAll R (rooms k), roomId := None\<rparr>)\<rparr>"
proof -
  have ne: "AList.delete C m \<noteq> []" using assms(6) by auto
  show ?thesis
    unfolding handleLeaveRoom_def
    using assms ne
    by (simp add: Let_def set_socket_def opt_json_def)
qed

lemma disconnect_promotes:
  assumes "sockets st C = Some k" and "roomId k = Some R" and "R \<noteq> []"
    and "roomHosts st R = Some C" and "roomUsers st R = Some m"
    and "filter (\<lambda>x. x \<noteq> C) (map fst m) \<noteq> []"
  shows "\<exists>newHost others body.
           map fst (AList.delete C m) = newHost # others \<and>
           member_ids (disconnect C st) R = newHost # others \<and>
           roomHosts (disconnect C st) R = Some newHost \<and>
           newHost \<noteq> C \<and> newHost \<in> fst ` set m \<and>
           outbox (disconnect C st) =
             outbox st @ [(To_room R, ''host-changed'', JObj [(''hostSocketId'', JStr newHost)]),
                          (To_room_except R C, ''user-left'', body)] \<and>
           (\<forall>x \<in> set (newHost # others).
              is_connected st x \<and> R \<in> set (rooms (the (sockets st x))) \<longrightarrow>
              receives (disconnect C st) (To_room R) x)"
proof -
  from assms(6) obtain x where x: "x \<in> fst ` set m" "x \<noteq> C"
    by (auto simp: filter_empty_conv)
  then have "map fst (AList.delete C m) \<noteq> []" by (rule delete_other_nonempty)
  then obtain newHost others where del: "map fst (AList.delete C m) = newHost # others"
    by (cases "map fst (AList.delete C m)") auto
  have keys: "set (newHost # others) = fst ` set m - {C}"
    using delete_keys [of C m] del by simp
  have nh: "newHost \<noteq> C" "newHost \<in> fst ` set m"
    using keys by auto
  let ?k = "k\<lparr>rooms := [], connected := False\<rparr>"
  let ?st0 = "st\<lparr>sockets := (sockets st)(C \<mapsto> ?k)\<rparr>"
  have d: "disconnect C st = handleLeaveRoom C ?st0"
    using assms(1) by (simp add: disconnect_def set_socket_def)
  have eq: "disconnect C st = 
           (emit (To_room_except R C) ''user-left''
              (JObj [(''user'', JObj [(''id'', JStr (u_id (user ?k))),
                                      (''username'', JStr (username (user ?k))),
                                      (''socketId'', JStr C)]),
                     (''users'', users_json (AList.delete C m)),
                     (''hostSocketId'', JStr newHost)])
              (emit (To_room R) ''host-changed'' (JObj [(''hostSocketId'', JStr newHost)])
                 (?st0\<lparr>roomUsers := (roomUsers ?st0)(R \<mapsto> AList.delete C m),
                     roomHosts := (roomHosts ?st0)(R \<mapsto> newHost)\<rparr>)))
           \<lparr>sockets := (sockets ?st0)(C \<mapsto> ?k\<lparr>rooms := removeAll R (rooms ?k), roomId := None\<rparr>)\<rparr>"
    unfolding d
    by (rule leave_promotes [where k = ?k and m = m and others = others])
       (use assms del in simp_all)
  have hosts: "roomHosts (disconnect C st) R = Some newHost"
    unfolding eq by simp
  have mem: "member_ids (disconnect C st) R = newHost # others"
    unfolding eq using del by (simp add: member_ids_def)
  have out: "\<exists>body. outbox (disconnect C st) =
             outbox st @ [(To_room R, ''host-changed'', JObj [(''hostSocketId'', JStr newHost)]),
                          (To_room_except R C, ''user-left'', body)]"
    unfolding eq by simp
  have socks: "\<And>y. y \<noteq> C \<Longrightarrow> sockets (disconnect C st) y = sockets st y"
    unfolding eq by simp
  have recv: "\<forall>y \<in> set (newHost # others).
              is_connected st y \<and> R \<in> set (rooms (the (sockets st y))) \<longrightarrow>
              receives (disconnect C st) (To_room R) y"
  proof (intro ballI impI)
    fix y assume y: "y \<in> set (newHost # others)"
      and c: "is_connected st y \<and> R \<in> set (rooms (the (sockets st y)))"
    from y keys have "y \<noteq> C" by auto
    then have "sockets (disconnect C st) y = sockets st y" by (rule socks)
    then show "receives (disconnect C st) (To_room R) y"
      using c by (auto simp: is_connected_def split: option.splits)
  qed
  from out obtain body where ob: "outbox (disconnect C st) =
             outbox st @ [(To_room R, ''host-changed'', JObj [(''hostSocketId'', JStr newHost)]),
                          (To_room_except R C, ''user-left'', body)]" ..
  show ?thesis
    apply (rule exI [of _ newHost], rule exI [of _ others], rule exI [of _ body])
    using del mem hosts nh ob recv by (intro conjI)
qed

text \<open>
  C6 fails as stated, for a room that is not the current room of its host. The guest
  \<open>a\<close> is host of room \<open>A\<close>, which has the other member \<open>b\<close>, and has since joined room
  \<open>B\<close>, so its current room is \<open>B\<close>. When \<open>a\<close> disconnects, the leave procedure runs
  for \<open>B\<close> alone: \<open>a\<close> stays host and member of \<open>A\<close>, and the only event sent is
  \<open>user-left\<close>. The same happens in the room whose id is the empty string, which the
  leave procedure takes for no room: the disconnect of its host changes nothing there
  and sends nothing.
\<close>

theorem stale_host_counterexample:
  "roomHosts (run host_elsewhere init) ''A'' = Some ''a'' \<and>
   member_ids (run host_elsewhere init) ''A'' = [''a'', ''b''] \<and>
   is_connected (run host_elsewhere init) ''a'' \<and>
   roomId (the (sockets (run host_elsewhere init) ''a'')) = Some ''B'' \<and>
   roomHosts (step (Disconnect ''a'') (run host_elsewhere init)) ''A'' = Some ''a'' \<and>
   member_ids (step (Disconnect ''a'') (run host_elsewhere init)) ''A'' = [''a'', ''b''] \<and>
   sent_by (Disconnect ''a'') (run host_elsewhere init) = [''user-left''] \<and>
   roomHosts (run nameless_room init) [] = Some ''a'' \<and>
   member_ids (run nameless_room init) [] = [''a'', ''b''] \<and>
   is_connected (run nameless_room init) ''a'' \<and>
   roomId (the (sockets (run nameless_room init) ''a'')) = Some [] \<and>
   roomHosts (step (Disconnect ''a'') (run nameless_room init)) [] = Some ''a'' \<and>
   member_ids (step (Disconnect ''a'') (run nameless_room init)) [] = [''a'', ''b''] \<and>
   sent_by (Disconnect ''a'') (run nameless_room init) = []"
  unfolding host_elsewhere_def nameless_room_def by code_simp

text \<open>
  C6 as amended: let the connection \<open>C\<close> be the host of room \<open>R\<close>, let \<open>R\<close> be the
  current room of \<open>C\<close> (the room it joined last, with a non-empty id), and let the
  membership map of \<open>R\<close> hold at least one other connection. When \<open>C\<close> disconnects, the
  host assignment of \<open>R\<close> becomes the first of the remaining members in the iteration
  order of the map, which is not \<open>C\<close>; exactly one \<open>host-changed\<close> naming it is sent to
  the whole room (followed by the \<open>user-left\<close> notice), and every remaining member
  that is connected and in the transport room receives it.
\<close>

theorem auto_promotion:
  assumes "sockets st C = Some k" and "connected k" and "roomId k = Some R" and "R \<noteq> []"
    and "roomHosts st R = Some C" and "roomUsers st R = Some m"
    and "filter (\<lambda>x. x \<noteq> C) (map fst m) \<noteq> []"
  shows "\<exists>newHost others body.
           map fst (AList.delete C m) = newHost # others \<and>
           member_ids (step (Disconnect C) st) R = newHost # others \<and>
           roomHosts (step (Disconnect C) st) R = Some newHost \<and>
           newHost \<noteq> C \<and> newHost \<in> fst ` set m \<and>
           outbox (step (Disconnect C) st) =
             outbox st @ [(To_room R, ''host-changed'', JObj [(''hostSocketId'', JStr newHost)]),
                          (To_room_except R C, ''user-left'', body)] \<and>
           (\<forall>x \<in> set (newHost # others).
              is_connected st x \<and> R \<in> set (rooms (the (sockets st x))) \<longrightarrow>
              receives (step (Disconnect C) st) (To_room R) x)"
proof -
  have "step (Disconnect C) st = disconnect C st"
    using assms(1,2) by (simp add: is_connected_def)
  then show ?thesis
    using disconnect_promotes [OF assms(1) assms(3-7)] by simp
qed

theorem auto_promotion_witness:
  "sockets (run three_in_room init) ''a'' = Some (the (sockets (run three_in_room init) ''a'')) \<and>
   connected (the (sockets (run three_in_room init) ''a'')) \<and>
   roomId (the (sockets (run three_in_room init) ''a'')) = Some ''ABC123'' \<and>
   roomHosts (run three_in_room init) ''ABC123'' = Some ''a'' \<and>
   roomUsers (run three_in_room init) ''ABC123'' =
     Some (the (roomUsers (run three_in_room init) ''ABC123'')) \<and>
   map fst (the (roomUsers (run three_in_room init) ''ABC123'')) = [''a'', ''b'', ''c''] \<and>
   roomHosts (step (Disconnect ''a'') (run three_in_room init)) ''ABC123'' = Some ''b'' \<and>
   receives (step (Disconnect ''a'') (run three_in_room init)) (To_room ''ABC123'') ''c''"
proof -
  let ?st = "run three_in_room init"
  let ?m = "the (roomUsers ?st ''ABC123'')"
  have 1: "sockets ?st ''a'' = Some (the (sockets ?st ''a''))"
    unfolding three_in_room_def by code_simp
  have 2: "connected (the (sockets ?st ''a''))"
    unfolding three_in_room_def by code_simp
  have 3: "roomId (the (sockets ?st ''a'')) = Some ''ABC123''"
    unfolding three_in_room_def by code_simp
  have 4: "''ABC123'' \<noteq> []" by simp
  have 5: "roomHosts ?st ''ABC123'' = Some ''a''"
    unfolding three_in_room_def by code_simp
  have 6: "roomUsers ?st ''ABC123'' = Some ?m"
    unfolding three_in_room_def by code_simp
  have m: "map fst ?m = [''a'', ''b'', ''c'']"
    unfolding three_in_room_def by code_simp
  have 7: "filter (\<lambda>x. x \<noteq> ''a'') (map fst ?m) \<noteq> []"
    unfolding m by simp
  have del: "map fst (AList.delete ''a'' ?m) = [''b'', ''c'']"
    unfolding three_in_room_def by code_simp
  have c: "is_connected ?st ''c'' \<and> ''ABC123'' \<in> set (rooms (the (sockets ?st ''c'')))"
    unfolding three_in_room_def by code_simp
  from auto_promotion [OF 1 2 3 4 5 6 7] del c
  have "roomHosts (step (Disconnect ''a'') ?st) ''ABC123'' = Some ''b''"
    and "receives (step (Disconnect ''a'') ?st) (To_room ''ABC123'') ''c''"
    by auto
  with 1 2 3 5 6 m show ?thesis by blast
qed

section \<open>Chat after the host has disabled it\<close>


lemma current_room_none: "\<not> truthy (roomId k) \<Longrightarrow> current_room k = None"
  by (cases "roomId k") (simp_all add: current_room_def)






section \<open>Events of a connection without a room\<close>

lemma not_host_without_room: "\<not> truthy (roomId k) \<Longrightarrow> \<not> isHost st k"
  by (simp add: isHost_def)

text \<open>
  C9 fails as stated. A connection that has connected and joined no room sends
  \<open>voice-join\<close> with a room id in the payload: both listeners act on that room (a
  participant is recorded and the room is told). The same connection sends
  \<open>host-end-session\<close>: it is answered with \<open>host-error\<close>.
\<close>

theorem no_room_counterexample:
  "roomId (the (sockets (run [Connect ''a'' None] init) ''a'')) = None \<and>
   voiceRooms (step (Client ''a'' (Voice_join (Some ''p1'') (Some ''R'')))
                 (run [Connect ''a'' None] init)) ''R'' =
     Some [\<lparr> vp_peerId = Some ''p1'', vp_socketId = ''a'', vp_isMuted = JBool True,
             vp_username = ''Guest-a'' \<rparr>] \<and>
   map (\<lambda>m. (fst m, fst (snd m)))
     (outbox (step (Client ''a'' (Voice_join (Some ''p1'') (Some ''R'')))
                (run [Connect ''a'' None] init))) =
     [(To_socket ''a'', ''voice-participants''), (To_room ''R'', ''voice-join''),
      (To_room_except ''R'' ''a'', ''voice-join'')] \<and>
   outbox (step (Client ''a'' Host_end_session) (run [Connect ''a'' None] init)) =
     [(To_socket ''a'', ''host-error'',
       JObj [(''message'', JStr ''Only the host can end the session'')])]"
  by code_simp

text \<open>
  C9 as amended: let a connection without a current room send an event that either
  takes no argument (\<open>leave-room\<close>, \<open>request-cursors\<close>, \<open>host-end-session\<close>) or comes
  with a payload object (fields may be absent); these are the events of \<open>client_event\<close>.
  Every such event other than \<open>join-room\<close>, the host commands, and a voice event that
  carries a room id is dropped: the state is the same afterwards, so nothing is changed,
  sent or logged. \<open>voice-join\<close>, \<open>voice-leave\<close> and \<open>voice-mute\<close> are dropped when
  their payload has no room id either, and are otherwise handled for the room of the
  payload. A host command changes nothing but is answered to the sender with
  \<open>host-error\<close>. Nothing is stated for an event sent without a payload, or with
  \<open>null\<close>, to a listener that destructures its argument: it throws before the guard.
\<close>

theorem no_room_dispatch:
  assumes "sockets st s = Some k" and "\<not> truthy (roomId k)"
  shows "(dropped_without_room e \<longrightarrow> on s e st = st) \<and>
         (\<forall>m. host_command e = Some m \<longrightarrow>
              on s e st = emit (To_socket s) ''host-error'' (JObj [(''message'', JStr m)]) st)"
proof -
  note ir = current_room_none [OF assms(2)]
  have nh: "\<not> isHost st k" using assms(2) by (rule not_host_without_room)
  have or: "\<And>v. \<not> truthy v \<Longrightarrow> \<not> truthy (or_room v (roomId k))" "\<And>v. \<not> truthy v \<Longrightarrow> \<not> truthy (or_room (roomId k) v)"
    using assms(2) by (simp_all add: or_room_def)
  show ?thesis
  proof (cases e)
    case Leave_room
    then show ?thesis using assms leave_no_room by simp
  qed (simp_all add: assms ir nh or code_change_def file_create_def file_delete_def file_rename_def
        active_file_change_def cursor_position_def cursor_position_1_def cursor_position_2_def
        intent_update_def tab_group_create_def tab_group_update_def tab_group_delete_def
        canvas_object_add_def canvas_object_modify_def canvas_object_delete_def
        canvas_path_create_def canvas_full_sync_def canvas_full_sync_1_def canvas_full_sync_2_def
        canvas_file_create_def canvas_file_switch_def chat_message_def voice_join_def
        voice_join_1_def voice_join_2_def voice_leave_def voice_leave_1_def voice_leave_2_def
        voice_mute_def voice_mute_1_def voice_mute_2_def terminal_output_def request_cursors_def
        host_kick_user_def host_mute_user_def host_transfer_def host_toggle_chat_def
        host_end_session_def host_error_def)
qed

theorem no_room_dispatch_witness:
  "sockets (run [Connect ''a'' None] init) ''a'' =
     Some (the (sockets (run [Connect ''a'' None] init) ''a'')) \<and>
   \<not> truthy (roomId (the (sockets (run [Connect ''a'' None] init) ''a''))) \<and>
   dropped_without_room (Chat_message (JStr ''hi'') ''17'' ''x'' True) \<and>
   on ''a'' (Chat_message (JStr ''hi'') ''17'' ''x'' True) (run [Connect ''a'' None] init) =
     run [Connect ''a'' None] init \<and>
   dropped_without_room (Voice_join (Some ''p1'') None) \<and>
   on ''a'' (Voice_join (Some ''p1'') None) (run [Connect ''a'' None] init) =
     run [Connect ''a'' None] init \<and>
   host_command (Host_transfer ''b'') = Some ''Only the host can transfer host role'' \<and>
   on ''a'' (Host_transfer ''b'') (run [Connect ''a'' None] init) =
     emit (To_socket ''a'') ''host-error''
       (JObj [(''message'', JStr ''Only the host can transfer host role'')])
       (run [Connect ''a'' None] init)"
proof -
  let ?st = "run [Connect ''a'' None] init"
  have 1: "sockets ?st ''a'' = Some (the (sockets ?st ''a''))" by code_simp
  have 2: "\<not> truthy (roomId (the (sockets ?st ''a'')))" by code_simp
  from no_room_dispatch [OF 1 2, of "Chat_message (JStr ''hi'') ''17'' ''x'' True"]
    no_room_dispatch [OF 1 2, of "Voice_join (Some ''p1'') None"]
    no_room_dispatch [OF 1 2, of "Host_transfer ''b''"] 1 2
  show ?thesis by simp
qed

section \<open>A join that outlives its connection\<close>

text \<open>
  C1 fails on the code. A guest joins room \<open>R\<close> and disconnects while the join handler
  waits for the store; the leave procedure empties and removes the room. When the
  handler resumes it finds no host for \<open>R\<close> and makes the departed connection host:
  the host assignment of \<open>R\<close> names a connection, no membership map exists for \<open>R\<close>,
  and no join is pending any more.
\<close>

theorem host_without_member:
  "roomHosts (run join_then_drop init) ''R'' = Some ''a'' \<and>
   roomUsers (run join_then_drop init) ''R'' = None \<and>
   member_ids (run join_then_drop init) ''R'' = [] \<and>
   joining (run join_then_drop init) = [] \<and>
   \<not> is_connected (run join_then_drop init) ''a''"
  unfolding join_then_drop_def by code_simp

section \<open>One room per connection\<close>

text \<open>
  C8 fails as stated: \<open>join-room\<close> does not take the connection out of the room it was
  in. After joining \<open>A\<close> and then \<open>B\<close> the connection is in the membership maps of both.
\<close>

theorem join_two_counterexample:
  "''a'' \<in> set (member_ids (run join_two init) ''A'') \<and>
   ''a'' \<in> set (member_ids (run join_two init) ''B'') \<and>
   ''A'' \<noteq> ''B''"
  unfolding join_two_def by code_simp

section \<open>Events that leave the room maps alone\<close>

lemma rooms_view_emit [simp]: "rooms_view (emit a e b st) = rooms_view st"
  by (simp add: rooms_view_def member_ids_def emit_def fun_eq_iff)

lemma rooms_view_log_error [simp]: "rooms_view (log_error e st) = rooms_view st"
  by (simp add: rooms_view_def member_ids_def log_error_def fun_eq_iff)

lemma rooms_view_store [simp]: "rooms_view (store c err ok st) = rooms_view st"
  by (simp add: store_def Let_def) (simp add: rooms_view_def member_ids_def fun_eq_iff)

lemma rooms_view_debouncedSave [simp]: "rooms_view (debouncedSave r f c st) = rooms_view st"
  by (simp add: rooms_view_def member_ids_def debouncedSave_def Let_def setTimeout_def
        clearTimeout_def fun_eq_iff split: option.splits)

lemma update_keys_same:
  "map_of m s = Some v \<Longrightarrow> map fst (AList.update s w m) = map fst m"
  by (induction m) (auto split: if_splits)

lemma rooms_view_fold:
  assumes "\<And>x st. rooms_view (f x st) = rooms_view st"
  shows "rooms_view (fold f xs st) = rooms_view st"
  using assms by (induction xs arbitrary: st) simp_all

lemma rooms_view_cursor_replay [simp]: "rooms_view (cursor_replay s c st) = rooms_view st"
  by (simp add: cursor_replay_def)

lemma rooms_view_misc_field:
  "rooms_view (st\<lparr>roomCursorPositions := x\<rparr>) = rooms_view st"
  "rooms_view (st\<lparr>voiceRooms := y\<rparr>) = rooms_view st"
  "rooms_view (st\<lparr>roomSettings := z\<rparr>) = rooms_view st"
  by (simp_all add: rooms_view_def member_ids_def fun_eq_iff)

lemma rooms_view_same_room:
  "sockets st s = Some k \<Longrightarrow> roomId k' = roomId k \<Longrightarrow>
   rooms_view (st\<lparr>sockets := (sockets st)(s \<mapsto> k')\<rparr>) = rooms_view st"
  by (auto simp: rooms_view_def member_ids_def fun_eq_iff)

lemma rooms_view_intent:
  "roomUsers st r = Some users \<Longrightarrow> map_of users s = Some u \<Longrightarrow>
   rooms_view (st\<lparr>roomUsers := (roomUsers st)(r \<mapsto> AList.update s w users)\<rparr>) = rooms_view st"
  by (auto simp: rooms_view_def member_ids_def fun_eq_iff update_keys_same)

lemmas plain_handler_defs =
  code_change_def file_create_def file_delete_def file_rename_def
  active_file_change_def cursor_position_def cursor_position_1_def cursor_position_2_def
  tab_group_create_def tab_group_update_def tab_group_delete_def
  canvas_object_add_def canvas_object_modify_def canvas_object_delete_def
  canvas_path_create_def canvas_full_sync_def canvas_full_sync_1_def canvas_full_sync_2_def
  canvas_file_create_def canvas_file_switch_def chat_message_def terminal_output_def

lemma rooms_view_request_cursors: "rooms_view (request_cursors s st) = rooms_view st"
  by (simp add: request_cursors_def rooms_view_fold split: option.splits)

lemma rooms_view_intent_update: "rooms_view (intent_update s i st) = rooms_view st"
  by (simp add: intent_update_def Let_def rooms_view_intent split: option.splits)

lemma rooms_view_voice_join: "rooms_view (voice_join s p v st) = rooms_view st"
proof -
  have 1: "rooms_view (voice_join_1 s p v st) = rooms_view st" for st
    by (simp add: voice_join_1_def Let_def rooms_view_misc_field rooms_view_same_room
          split: option.splits)
       (simp add: rooms_view_def member_ids_def fun_eq_iff)
  have 2: "rooms_view (voice_join_2 s p v st) = rooms_view st" for st
    by (simp add: voice_join_2_def Let_def rooms_view_same_room split: option.splits)
  show ?thesis by (simp add: voice_join_def 1 2)
qed

lemma rooms_view_voice_leave: "rooms_view (voice_leave s p v st) = rooms_view st"
proof -
  have 1: "rooms_view (voice_leave_1 s p st) = rooms_view st" for st
    by (auto simp: voice_leave_1_def Let_def rooms_view_def member_ids_def fun_eq_iff
          split: option.splits)
  have 2: "rooms_view (voice_leave_2 s p v st) = rooms_view st" for st
    by (simp add: voice_leave_2_def Let_def rooms_view_same_room split: option.splits)
  show ?thesis by (simp add: voice_leave_def 1 2)
qed

lemma rooms_view_voice_mute: "rooms_view (voice_mute s p m v st) = rooms_view st"
proof -
  have 1: "rooms_view (voice_mute_1 s p m st) = rooms_view st" for st
    by (simp add: voice_mute_1_def Let_def rooms_view_misc_field split: option.splits)
  have 2: "rooms_view (voice_mute_2 s p m v st) = rooms_view st" for st
    by (simp add: voice_mute_2_def split: option.splits)
  show ?thesis by (simp add: voice_mute_def 1 2)
qed

lemma rooms_view_host_mute: "rooms_view (host_mute_user s t st) = rooms_view st"
  by (simp add: host_mute_user_def host_error_def split: option.splits)

lemma rooms_view_host_toggle: "rooms_view (host_toggle_chat s d st) = rooms_view st"
  by (simp add: host_toggle_chat_def host_error_def Let_def rooms_view_misc_field
        split: option.splits)

lemma rooms_view_plain:
  "rooms_view (code_change s a1 a2 a3 st) = rooms_view st"
  "rooms_view (file_create s b1 ok st) = rooms_view st"
  "rooms_view (file_delete s b1 ok st) = rooms_view st"
  "rooms_view (file_rename s b1 b2 ok st) = rooms_view st"
  "rooms_view (active_file_change s b1 st) = rooms_view st"
  "rooms_view (cursor_position s b1 b2 b3 st) = rooms_view st"
  "rooms_view (tab_group_create s b1 ok st) = rooms_view st"
  "rooms_view (tab_group_update s b1 b2 st) = rooms_view st"
  "rooms_view (tab_group_delete s b1 ok st) = rooms_view st"
  "rooms_view (canvas_object_add s b1 b2 b3 st) = rooms_view st"
  "rooms_view (canvas_object_modify s b1 b2 b3 st) = rooms_view st"
  "rooms_view (canvas_object_delete s b1 b2 st) = rooms_view st"
  "rooms_view (canvas_path_create s b1 b2 st) = rooms_view st"
  "rooms_view (canvas_full_sync s fs ok ok2 st) = rooms_view st"
  "rooms_view (canvas_file_create s b1 ok st) = rooms_view st"
  "rooms_view (canvas_file_switch s b1 st) = rooms_view st"
  "rooms_view (chat_message s b1 t1 t2 ok st) = rooms_view st"
  "rooms_view (terminal_output s b1 ok st) = rooms_view st"
  by (simp_all add: plain_handler_defs Let_def rooms_view_misc_field
        split: option.splits)

section \<open>Members are at home\<close>

lemma at_home_view:
  "at_home st =
     (\<forall>r s. s \<in> set (fst (rooms_view st) r) \<longrightarrow>
            fst (snd (snd (rooms_view st))) s = Some (Some r))"
  by (auto simp: at_home_def rooms_view_def)

lemma at_home_cong: "rooms_view st' = rooms_view st \<Longrightarrow> at_home st' = at_home st"
  by (simp add: at_home_view)

lemma at_home_alt:
  "at_home st = (\<forall>r s. s \<in> set (member_ids st r) \<longrightarrow> map_option roomId (sockets st s) = Some (Some r))"
  by (auto simp: at_home_def)

lemma delete_keys_filter: "map fst (AList.delete s m) = filter (\<lambda>x. x \<noteq> s) (map fst m)"
  by (induction m) auto

lemma delete_empty_iff: "(AList.delete s m = []) = (filter (\<lambda>x. x \<noteq> s) (map fst m) = [])"
  using delete_keys_filter [of s m] by (metis map_is_Nil_conv)

lemma leave_member_ids:
  assumes "sockets st s = Some k" and "roomId k = Some r0" and "r0 \<noteq> []"
  shows "member_ids (handleLeaveRoom s st) r =
           (if r = r0 then filter (\<lambda>x. x \<noteq> s) (member_ids st r0) else member_ids st r)"
proof (cases "roomUsers st r0")
  case None
  then show ?thesis using assms
    by (simp add: handleLeaveRoom_def set_socket_def member_ids_def)
next
  case (Some m)
  then show ?thesis using assms
    by (simp add: handleLeaveRoom_def set_socket_def member_ids_def Let_def delete_keys_filter
          delete_empty_iff split: list.splits)
qed

lemma leave_sockets:
  assumes "sockets st s = Some k" and "roomId k = Some r0" and "r0 \<noteq> []"
  shows "sockets (handleLeaveRoom s st) =
           (sockets st)(s \<mapsto> k\<lparr>rooms := removeAll r0 (rooms k), roomId := None\<rparr>)"
proof (cases "roomUsers st r0")
  case None
  then show ?thesis using assms
    by (simp add: handleLeaveRoom_def set_socket_def)
next
  case (Some m)
  then show ?thesis using assms
    by (simp add: handleLeaveRoom_def set_socket_def Let_def split: list.splits)
qed

lemma leave_cases:
  obtains (same) "handleLeaveRoom s st = st"
  | (left) k r0 where "sockets st s = Some k" "roomId k = Some r0" "r0 \<noteq> []"
proof (cases "sockets st s")
  case None
  then have "handleLeaveRoom s st = st" by (simp add: handleLeaveRoom_def)
  then show ?thesis by (rule same)
next
  case (Some k)
  show ?thesis
  proof (cases "roomId k")
    case None
    with Some have "handleLeaveRoom s st = st" by (simp add: handleLeaveRoom_def)
    then show ?thesis by (rule same)
  next
    case (Some r0)
    show ?thesis
    proof (cases "r0 = []")
      case True
      with Some \<open>sockets st s = Some k\<close> have "handleLeaveRoom s st = st"
        by (simp add: handleLeaveRoom_def)
      then show ?thesis by (rule same)
    next
      case False
      show ?thesis using \<open>sockets st s = Some k\<close> Some False by (rule left)
    qed
  qed
qed

lemma at_home_leave: "at_home st \<Longrightarrow> at_home (handleLeaveRoom s st)"
proof (cases s st rule: leave_cases)
  case same
  then show "at_home st \<Longrightarrow> at_home (handleLeaveRoom s st)" by simp
next
  case (left k r0)
  assume h: "at_home st"
  show "at_home (handleLeaveRoom s st)"
    unfolding at_home_alt
  proof (intro allI impI)
    fix r x
    assume x: "x \<in> set (member_ids (handleLeaveRoom s st) r)"
    have "x \<noteq> s \<and> x \<in> set (member_ids st r)"
    proof (cases "r = r0")
      case True
      then show ?thesis using x leave_member_ids [OF left, of r] by simp
    next
      case False
      then have m: "x \<in> set (member_ids st r)" using x leave_member_ids [OF left, of r] by simp
      then have "map_option roomId (sockets st x) = Some (Some r)"
        using h by (simp add: at_home_alt)
      then have "x \<noteq> s" using left False by auto
      then show ?thesis using m by simp
    qed
    then show "map_option roomId (sockets (handleLeaveRoom s st) x) = Some (Some r)"
      using h leave_sockets [OF left] by (simp add: at_home_alt)
  qed
qed

lemma at_home_connect: "at_home st \<Longrightarrow> at_home (connect s auth st)"
proof (cases "sockets st s")
  case (Some k)
  then show "at_home st \<Longrightarrow> at_home (connect s auth st)" by (simp add: connect_def)
next
  case None
  assume h: "at_home st"
  have m: "member_ids (connect s auth st) = member_ids st"
    using None by (simp add: connect_def member_ids_def fun_eq_iff)
  show "at_home (connect s auth st)"
    unfolding at_home_alt m
  proof (intro allI impI)
    fix r x
    assume "x \<in> set (member_ids st r)"
    then have x: "map_option roomId (sockets st x) = Some (Some r)"
      using h by (simp add: at_home_alt)
    then have "x \<noteq> s" using None by auto
    then show "map_option roomId (sockets (connect s auth st) x) = Some (Some r)"
      using x None by (simp add: connect_def)
  qed
qed

lemma join_room_member_ids:
  assumes "sockets st s = Some k"
  shows "member_ids (join_room s r dn st) r' =
           (if r' = r then (if s \<in> set (member_ids st r) then member_ids st r
                            else member_ids st r @ [s])
            else member_ids st r')"
  using assms
  by (simp add: join_room_def Let_def member_ids_def update_keys split: option.splits)

lemma join_room_sockets:
  assumes "sockets st s = Some k"
  shows "map_option roomId (sockets (join_room s r dn st) x) =
           (if x = s then Some (Some r) else map_option roomId (sockets st x))"
  using assms
  by (simp add: join_room_def Let_def split: option.splits)

lemma at_home_join_room:
  assumes "at_home st" and "named_rooms st"
    and "join_is_fresh (Client s (Join_room r dn)) st"
  shows "at_home (join_room s r dn st)"
proof (cases "sockets st s")
  case None
  then show ?thesis using assms(1) by (simp add: join_room_def)
next
  case (Some k)
  note k' = join_room_sockets [OF Some, of r dn]
  have "roomId k \<noteq> Some []" using assms(2) Some by (simp add: named_rooms_def)
  then have fresh: "roomId k = None \<or> roomId k = Some r"
    using assms(3) Some by (auto simp: current_room_def split: option.splits if_splits)
  show ?thesis
    unfolding at_home_alt
  proof (intro allI impI)
    fix r' x
    assume x: "x \<in> set (member_ids (join_room s r dn st) r')"
    show "map_option roomId (sockets (join_room s r dn st) x) = Some (Some r')"
    proof (cases "x = s")
      case True
      have "r' = r"
      proof (rule ccontr)
        assume "r' \<noteq> r"
        then have "s \<in> set (member_ids st r')"
          using x True join_room_member_ids [OF Some, of r dn r'] by simp
        then have "map_option roomId (sockets st s) = Some (Some r')"
          using assms(1) by (simp add: at_home_alt)
        then have "roomId k = Some r'" using Some by simp
        then show False using fresh \<open>r' \<noteq> r\<close> by auto
      qed
      then show ?thesis using True k' by simp
    next
      case False
      then have "x \<in> set (member_ids st r')"
        using x join_room_member_ids [OF Some, of r dn r'] by (auto split: if_splits)
      then show ?thesis using assms(1) False k' by (simp add: at_home_alt)
    qed
  qed
qed

lemma at_home_frame:
  "member_ids st' = member_ids st \<Longrightarrow> sockets st' = sockets st \<Longrightarrow> at_home st' = at_home st"
  by (simp add: at_home_def)

lemma join_resume_frame:
  "roomUsers (join_resume s r db st) = roomUsers st \<and>
   sockets (join_resume s r db st) = sockets st"
  by (simp add: join_resume_def Let_def split: option.splits prod.splits)

lemma at_home_join_resume: "at_home st \<Longrightarrow> at_home (join_resume s r db st)"
proof -
  have "member_ids (join_resume s r db st) = member_ids st"
    using join_resume_frame [of s r db st] by (simp add: member_ids_def fun_eq_iff)
  then show "at_home st \<Longrightarrow> at_home (join_resume s r db st)"
    using at_home_frame join_resume_frame by blast
qed

lemma at_home_set_socket:
  assumes "\<And>k. roomId (f k) = roomId k" and "at_home st"
  shows "at_home (set_socket s f st)"
proof (cases "sockets st s")
  case None
  then show ?thesis using assms(2) by (simp add: set_socket_def)
next
  case (Some k)
  then have "rooms_view (set_socket s f st) = rooms_view st"
    using assms(1) by (simp add: set_socket_def rooms_view_same_room)
  then show ?thesis using assms(2) at_home_cong by blast
qed

lemma at_home_disconnect: "at_home st \<Longrightarrow> at_home (disconnect s st)"
  unfolding disconnect_def by (intro at_home_leave at_home_set_socket) simp_all

lemma at_home_emit [simp]: "at_home (emit a e b st) = at_home st"
  by (rule at_home_cong) simp

lemma at_home_kick: "at_home st \<Longrightarrow> at_home (host_kick_user s t st)"
  by (simp add: host_kick_user_def host_error_def at_home_leave split: option.splits)

lemma at_home_transfer: "at_home st \<Longrightarrow> at_home (host_transfer s t st)"
proof -
  have "member_ids (host_transfer s t st) = member_ids st \<and>
        sockets (host_transfer s t st) = sockets st"
    by (simp add: host_transfer_def host_error_def Let_def member_ids_def fun_eq_iff
          split: option.splits)
  then show "at_home st \<Longrightarrow> at_home (host_transfer s t st)"
    using at_home_frame by blast
qed

lemma at_home_leave_if_connected: "at_home st \<Longrightarrow> at_home (leave_if_connected t st)"
  by (simp add: leave_if_connected_def at_home_leave split: option.splits)

lemma at_home_fold_leave: "at_home st \<Longrightarrow> at_home (fold leave_if_connected ts st)"
  by (induction ts arbitrary: st) (simp_all add: at_home_leave_if_connected)

lemma at_home_drop_room:
  "at_home st \<Longrightarrow>
   at_home (st\<lparr>roomUsers := (roomUsers st)(r := None), roomHosts := h, roomSettings := g\<rparr>)"
  by (auto simp: at_home_def member_ids_def split: option.splits if_splits)

lemma at_home_end_session: "at_home st \<Longrightarrow> at_home (host_end_session s st)"
  by (simp add: host_end_session_def host_error_def Let_def at_home_drop_room
        at_home_fold_leave split: option.splits)

lemma rooms_view_timers:
  "rooms_view (fire h st) = rooms_view st"
  "rooms_view (flush_reply n ok st) = rooms_view st"
  "rooms_view (advance d st) = rooms_view st"
  by (simp_all add: fire_def flush_start_def flush_reply_def advance_def clearTimeout_def
        issue_update_def log_error_def Let_def rooms_view_def member_ids_def fun_eq_iff
        split: option.splits list.splits prod.splits)

lemma at_home_on:
  assumes "at_home st" and "named_rooms st" and "join_is_fresh (Client s e) st"
  shows "at_home (on s e st)"
proof (cases e)
  case (Join_room r dn)
  then show ?thesis using assms at_home_join_room by simp
next
  case Leave_room
  then show ?thesis using assms(1) by (simp add: at_home_leave)
next
  case (Host_kick_user t)
  then show ?thesis using assms(1) by (simp add: at_home_kick)
next
  case (Host_transfer t)
  then show ?thesis using assms(1) by (simp add: at_home_transfer)
next
  case Host_end_session
  then show ?thesis using assms(1) by (simp add: at_home_end_session)
qed (use assms(1) in \<open>simp_all add: at_home_view rooms_view_plain rooms_view_request_cursors
       rooms_view_intent_update rooms_view_voice_join rooms_view_voice_leave
       rooms_view_voice_mute rooms_view_host_mute rooms_view_host_toggle\<close>)

lemma at_home_step:
  assumes "at_home st" and "named_rooms st" and "join_is_fresh e st"
  shows "at_home (step e st)"
proof (cases e)
  case (Client s ev)
  then show ?thesis using assms at_home_on by simp
next
  case (Connect s auth)
  then show ?thesis using assms(1) by (simp add: at_home_connect)
next
  case (Disconnect s)
  then show ?thesis using assms(1) by (simp add: at_home_disconnect)
next
  case (Join_resume s r db)
  then show ?thesis using assms(1) by (simp add: at_home_join_resume)
qed (use assms(1) in \<open>simp_all add: at_home_view rooms_view_timers\<close>)

section \<open>Room ids are not empty\<close>

lemma named_rooms_view:
  "named_rooms st = (\<forall>s. fst (snd (snd (rooms_view st))) s \<noteq> Some (Some []))"
  by (auto simp: named_rooms_def rooms_view_def)

lemma named_rooms_alt:
  "named_rooms st = (\<forall>s. map_option roomId (sockets st s) \<noteq> Some (Some []))"
  by (auto simp: named_rooms_def)

lemma named_rooms_frame: "sockets st' = sockets st \<Longrightarrow> named_rooms st' = named_rooms st"
  by (simp add: named_rooms_def)

lemma named_rooms_leave: "named_rooms st \<Longrightarrow> named_rooms (handleLeaveRoom s st)"
proof (cases s st rule: leave_cases)
  case same
  then show "named_rooms st \<Longrightarrow> named_rooms (handleLeaveRoom s st)" by simp
next
  case (left k r0)
  assume "named_rooms st"
  then show "named_rooms (handleLeaveRoom s st)"
    using leave_sockets [OF left] by (simp add: named_rooms_def)
qed

lemma named_rooms_connect: "named_rooms st \<Longrightarrow> named_rooms (connect s auth st)"
  by (auto simp: named_rooms_def connect_def split: option.splits if_splits)

lemma named_rooms_join_room:
  assumes "named_rooms st" and "r \<noteq> []"
  shows "named_rooms (join_room s r dn st)"
proof (cases "sockets st s")
  case None
  then show ?thesis using assms(1) by (simp add: join_room_def)
next
  case (Some k)
  show ?thesis
    unfolding named_rooms_alt
    using assms join_room_sockets [OF Some, of r dn] by (simp add: named_rooms_alt)
qed

lemma named_rooms_join_resume: "named_rooms st \<Longrightarrow> named_rooms (join_resume s r db st)"
  using join_resume_frame [of s r db st] named_rooms_frame by blast

lemma named_rooms_set_socket:
  assumes "\<And>k. roomId (f k) = roomId k" and "named_rooms st"
  shows "named_rooms (set_socket s f st)"
proof (cases "sockets st s")
  case None
  then show ?thesis using assms(2) by (simp add: set_socket_def)
next
  case (Some k)
  then have "rooms_view (set_socket s f st) = rooms_view st"
    using assms(1) by (simp add: set_socket_def rooms_view_same_room)
  then show ?thesis using assms(2) by (simp add: named_rooms_view)
qed

lemma named_rooms_disconnect: "named_rooms st \<Longrightarrow> named_rooms (disconnect s st)"
  unfolding disconnect_def by (intro named_rooms_leave named_rooms_set_socket) simp_all

lemma named_rooms_emit [simp]: "named_rooms (emit a e b st) = named_rooms st"
  by (simp add: named_rooms_def)

lemma named_rooms_kick: "named_rooms st \<Longrightarrow> named_rooms (host_kick_user s t st)"
  by (simp add: host_kick_user_def host_error_def named_rooms_leave split: option.splits)

lemma named_rooms_transfer: "named_rooms st \<Longrightarrow> named_rooms (host_transfer s t st)"
proof -
  have "sockets (host_transfer s t st) = sockets st"
    by (simp add: host_transfer_def host_error_def Let_def split: option.splits)
  then show "named_rooms st \<Longrightarrow> named_rooms (host_transfer s t st)"
    using named_rooms_frame by blast
qed

lemma named_rooms_leave_if_connected:
  "named_rooms st \<Longrightarrow> named_rooms (leave_if_connected t st)"
  by (simp add: leave_if_connected_def named_rooms_leave split: option.splits)

lemma named_rooms_fold_leave:
  "named_rooms st \<Longrightarrow> named_rooms (fold leave_if_connected ts st)"
  by (induction ts arbitrary: st) (simp_all add: named_rooms_leave_if_connected)

lemma named_rooms_drop_room:
  "named_rooms st \<Longrightarrow>
   named_rooms (st\<lparr>roomUsers := u, roomHosts := h, roomSettings := g\<rparr>)"
  by (simp add: named_rooms_def)

lemma named_rooms_end_session: "named_rooms st \<Longrightarrow> named_rooms (host_end_session s st)"
  by (simp add: host_end_session_def host_error_def Let_def named_rooms_drop_room
        named_rooms_fold_leave split: option.splits)

lemma named_rooms_on:
  assumes "named_rooms st" and "join_is_fresh (Client s e) st"
  shows "named_rooms (on s e st)"
proof (cases e)
  case (Join_room r dn)
  then show ?thesis using assms named_rooms_join_room by simp
next
  case Leave_room
  then show ?thesis using assms(1) by (simp add: named_rooms_leave)
next
  case (Host_kick_user t)
  then show ?thesis using assms(1) by (simp add: named_rooms_kick)
next
  case (Host_transfer t)
  then show ?thesis using assms(1) by (simp add: named_rooms_transfer)
next
  case Host_end_session
  then show ?thesis using assms(1) by (simp add: named_rooms_end_session)
qed (use assms(1) in \<open>simp_all add: named_rooms_view rooms_view_plain
       rooms_view_request_cursors rooms_view_intent_update rooms_view_voice_join
       rooms_view_voice_leave rooms_view_voice_mute rooms_view_host_mute
       rooms_view_host_toggle\<close>)

lemma named_rooms_step:
  assumes "named_rooms st" and "join_is_fresh e st"
  shows "named_rooms (step e st)"
proof (cases e)
  case (Client s ev)
  then show ?thesis using assms named_rooms_on by simp
next
  case (Connect s auth)
  then show ?thesis using assms(1) by (simp add: named_rooms_connect)
next
  case (Disconnect s)
  then show ?thesis using assms(1) by (simp add: named_rooms_disconnect)
next
  case (Join_resume s r db)
  then show ?thesis using assms(1) by (simp add: named_rooms_join_resume)
qed (use assms(1) in \<open>simp_all add: named_rooms_view rooms_view_timers\<close>)

lemma named_rooms_init: "named_rooms init"
  by (simp add: named_rooms_def init_def)

section \<open>One room per connection when clients leave before they join\<close>

lemma at_home_run:
  "at_home st \<Longrightarrow> named_rooms st \<Longrightarrow> fresh_joins es st \<Longrightarrow>
   at_home (run es st) \<and> named_rooms (run es st)"
  unfolding run_def
  by (induction es arbitrary: st) (simp_all add: at_home_step named_rooms_step)

lemma at_home_init: "at_home init"
  by (simp add: at_home_def member_ids_def init_def)

lemma at_home_one_room: "at_home st \<Longrightarrow> one_room st"
  unfolding at_home_def one_room_def by (metis option.inject)

text \<open>
  C8 as amended: along every run, from the start of the server, in which each
  \<open>join-room\<close> names its room by a non-empty string and comes from a connection that
  has no current room (its room id is null or empty, as the handlers' guard reads it) or
  whose current room is the room it joins (a client leaves a room before it joins
  another), a connection id is a key of at most one room's membership map at a time, that
  room is the connection's current room, and no connection's current room id is the empty
  string. Joins with an empty room id, or with no string room id at all, are excluded.
\<close>

theorem one_room_fresh_joins:
  assumes "fresh_joins es init"
  shows "one_room (run es init) \<and> at_home (run es init) \<and> named_rooms (run es init)"
  using assms at_home_run [OF at_home_init named_rooms_init] at_home_one_room by blast

theorem one_room_fresh_joins_witness:
  "fresh_joins join_leave_join init \<and>
   one_room (run join_leave_join init) \<and> at_home (run join_leave_join init) \<and>
   named_rooms (run join_leave_join init) \<and>
   member_ids (run join_leave_join init) ''A'' = [] \<and>
   member_ids (run join_leave_join init) ''B'' = [''a'']"
proof -
  have 1: "fresh_joins join_leave_join init"
    unfolding join_leave_join_def by code_simp
  have 2: "member_ids (run join_leave_join init) ''A'' = []"
    unfolding join_leave_join_def by code_simp
  have 3: "member_ids (run join_leave_join init) ''B'' = [''a'']"
    unfolding join_leave_join_def by code_simp
  from one_room_fresh_joins [OF 1] 1 2 3 show ?thesis by blast
qed

section \<open>A flush that runs to its end\<close>






lemma fire_nothing_pending:
  assumes "find (\<lambda>t. fst t = h) (timers st) = Some (h, r, due)" and "due \<le> now st"
    and "pending st r = []"
  shows "fire h st =
           st\<lparr>timers := filter (\<lambda>t. fst t \<noteq> h) (timers st),
              saveTimers := (saveTimers st)(r := None)\<rparr>"
  using assms
  by (auto simp: fire_def flush_start_def clearTimeout_def pending_def split: option.splits list.splits)


section \<open>A store failure during a flush\<close>








section \<open>A change during a flush\<close>

text \<open>
  C2 fails on the code. The timer of room \<open>R\<close> fires and the flush waits for the
  store. A change of file \<open>f1\<close> arrives meanwhile: it is buffered and arms timer 1.
  The store answers; the flush deletes the buffer, with the new content in it, and the
  timer handle, which is now that of timer 1. A change of file \<open>f2\<close> arrives 100 ms
  later: it finds no handle, cancels nothing and arms timer 2. Two timeouts are now
  pending for the room; when both have fired, the content \<open>x\<close> of \<open>f1\<close> has not been
  written.
\<close>

theorem edit_during_flush_two_timers:
  "now (run edit_during_flush init) = 2100 \<and>
   room_timers (run edit_during_flush init) ''R'' = [(1, ''R'', 4000), (2, ''R'', 4100)] \<and>
   saveTimers (run edit_during_flush init) ''R'' = Some 2 \<and>
   pending (run edit_during_flush init) ''R'' = [(''f2'', JStr ''y'')] \<and>
   timers (run edit_during_flush_end init) = [] \<and>
   flushing (run edit_during_flush_end init) = [] \<and>
   pending (run edit_during_flush_end init) ''R'' = [] \<and>
   storeCalls (run edit_during_flush_end init) =
     [Set_file_content ''R'' ''f1'' (JStr ''old''), Set_file_content ''R'' ''f2'' (JStr ''y'')]"
  unfolding edit_during_flush_end_def edit_during_flush_def by code_simp

section \<open>Hosts are members when joins are not interleaved\<close>

lemma host_ok_view:
  "host_ok st =
     (\<forall>r h. fst (snd (rooms_view st)) r = Some h \<longrightarrow> h \<in> set (fst (rooms_view st) r))"
  by (simp add: host_ok_def rooms_view_def)

lemma joining_view: "joining st = snd (snd (snd (rooms_view st)))"
  by (simp add: rooms_view_def)

lemma leave_roomHosts:
  assumes "sockets st s = Some k" and "roomId k = Some r0" and "r0 \<noteq> []"
  shows "roomHosts (handleLeaveRoom s st) r =
           (if r = r0 then
              (case roomUsers st r0 of None \<Rightarrow> roomHosts st r0
               | Some m \<Rightarrow>
                   (case filter (\<lambda>x. x \<noteq> s) (map fst m) of [] \<Rightarrow> None
                    | newHost # _ \<Rightarrow>
                        if roomHosts st r0 = Some s then Some newHost else roomHosts st r0))
            else roomHosts st r)"
proof (cases "roomUsers st r0")
  case None
  then show ?thesis using assms
    by (simp add: handleLeaveRoom_def set_socket_def)
next
  case (Some m)
  then show ?thesis using assms
    by (simp add: handleLeaveRoom_def set_socket_def Let_def delete_keys_filter
          delete_empty_iff split: list.splits)
qed

lemma leave_joining [simp]: "joining (handleLeaveRoom s st) = joining st"
proof (cases s st rule: leave_cases)
  case same
  then show ?thesis by simp
next
  case (left k r0)
  show ?thesis
  proof (cases "roomUsers st r0")
    case None
    then show ?thesis using left
      by (simp add: handleLeaveRoom_def set_socket_def)
  next
    case (Some m)
    then show ?thesis using left
      by (simp add: handleLeaveRoom_def set_socket_def Let_def split: list.splits)
  qed
qed

lemma host_ok_leave: "host_ok st \<Longrightarrow> host_ok (handleLeaveRoom s st)"
proof (cases s st rule: leave_cases)
  case same
  then show "host_ok st \<Longrightarrow> host_ok (handleLeaveRoom s st)" by simp
next
  case (left k r0)
  assume h: "host_ok st"
  show "host_ok (handleLeaveRoom s st)"
    unfolding host_ok_def
  proof (intro allI impI)
    fix r x
    assume x: "roomHosts (handleLeaveRoom s st) r = Some x"
    show "x \<in> set (member_ids (handleLeaveRoom s st) r)"
    proof (cases "r = r0")
      case False
      then show ?thesis
        using x h leave_roomHosts [OF left, of r] leave_member_ids [OF left, of r]
        by (simp add: host_ok_def)
    next
      case True
      show ?thesis
      proof (cases "roomUsers st r0")
        case None
        then have "member_ids st r0 = []" by (simp add: member_ids_def)
        then have "roomHosts st r0 = None"
          using h unfolding host_ok_def by (metis empty_iff empty_set not_Some_eq)
        then show ?thesis using x True None leave_roomHosts [OF left, of r] by simp
      next
        case (Some m)
        have ids: "member_ids st r0 = map fst m" using Some by (simp add: member_ids_def)
        show ?thesis
        proof (cases "filter (\<lambda>y. y \<noteq> s) (map fst m)")
          case Nil
          then show ?thesis using x True Some leave_roomHosts [OF left, of r] by simp
        next
          case (Cons newHost rest)
          show ?thesis
          proof (cases "roomHosts st r0 = Some s")
            case True
            then have "x = newHost"
              using x \<open>r = r0\<close> Some Cons leave_roomHosts [OF left, of r] by simp
            then show ?thesis
              using \<open>r = r0\<close> Cons ids leave_member_ids [OF left, of r] by simp
          next
            case False
            then have xh: "roomHosts st r0 = Some x"
              using x \<open>r = r0\<close> Some Cons leave_roomHosts [OF left, of r] by simp
            then have "x \<in> set (member_ids st r0)" using h by (simp add: host_ok_def)
            moreover have "x \<noteq> s" using xh False by auto
            ultimately show ?thesis
              using \<open>r = r0\<close> leave_member_ids [OF left, of r] by simp
          qed
        qed
      qed
    qed
  qed
qed

lemma host_ok_cong: "rooms_view st' = rooms_view st \<Longrightarrow> host_ok st \<Longrightarrow> host_ok st'"
  by (simp add: host_ok_view)

lemma rooms_view_connect_hosts:
  "roomHosts (connect s auth st) = roomHosts st \<and> member_ids (connect s auth st) = member_ids st
   \<and> joining (connect s auth st) = joining st"
  by (simp add: connect_def member_ids_def fun_eq_iff split: option.splits)

lemma host_ok_connect: "host_ok st \<Longrightarrow> host_ok (connect s auth st)"
  using rooms_view_connect_hosts [of s auth st] by (simp add: host_ok_def)

lemma rooms_view_set_socket:
  "(\<And>k. roomId (f k) = roomId k) \<Longrightarrow> rooms_view (set_socket s f st) = rooms_view st"
  by (cases "sockets st s") (simp_all add: set_socket_def rooms_view_same_room)

lemma host_ok_disconnect: "host_ok st \<Longrightarrow> host_ok (disconnect s st)"
  unfolding disconnect_def
  by (intro host_ok_leave host_ok_cong [OF rooms_view_set_socket]) simp_all

lemma joining_set_socket [simp]: "joining (set_socket s f st) = joining st"
  by (simp add: set_socket_def split: option.splits)

lemma joining_disconnect [simp]: "joining (disconnect s st) = joining st"
  by (simp add: disconnect_def)

lemma host_ok_emit [simp]: "host_ok (emit a e b st) = host_ok st"
  by (simp add: host_ok_view)

lemma host_ok_kick: "host_ok st \<Longrightarrow> host_ok (host_kick_user s t st)"
  by (simp add: host_kick_user_def host_error_def host_ok_leave split: option.splits)

lemma joining_kick [simp]: "joining (host_kick_user s t st) = joining st"
  by (simp add: host_kick_user_def host_error_def split: option.splits)

lemma host_ok_transfer: "host_ok st \<Longrightarrow> host_ok (host_transfer s t st)"
  by (auto simp: host_transfer_def host_error_def Let_def host_ok_def member_ids_def
        split: option.splits)

lemma joining_transfer [simp]: "joining (host_transfer s t st) = joining st"
  by (simp add: host_transfer_def host_error_def Let_def split: option.splits)

lemma host_ok_leave_if_connected: "host_ok st \<Longrightarrow> host_ok (leave_if_connected t st)"
  by (simp add: leave_if_connected_def host_ok_leave split: option.splits)

lemma host_ok_fold_leave: "host_ok st \<Longrightarrow> host_ok (fold leave_if_connected ts st)"
  by (induction ts arbitrary: st) (simp_all add: host_ok_leave_if_connected)

lemma joining_fold_leave [simp]: "joining (fold leave_if_connected ts st) = joining st"
  by (induction ts arbitrary: st) (simp_all add: leave_if_connected_def split: option.splits)

lemma host_ok_drop_room:
  "host_ok st \<Longrightarrow>
   host_ok (st\<lparr>roomUsers := (roomUsers st)(r := None), roomHosts := (roomHosts st)(r := None),
              roomSettings := g\<rparr>)"
  by (auto simp: host_ok_def member_ids_def split: option.splits if_splits)

lemma host_ok_end_session: "host_ok st \<Longrightarrow> host_ok (host_end_session s st)"
  by (simp add: host_end_session_def host_error_def Let_def host_ok_drop_room
        host_ok_fold_leave split: option.splits)

lemma joining_end_session [simp]: "joining (host_end_session s st) = joining st"
  by (simp add: host_end_session_def host_error_def Let_def split: option.splits)

text \<open>A join that runs from \<open>join-room\<close> to its end keeps the hosts among the members.\<close>

lemma host_ok_join_room:
  assumes "host_ok st" and "sockets st s = Some k"
  shows "host_ok (join_room s r dn st) \<and> s \<in> set (member_ids (join_room s r dn st) r)"
proof -
  have hosts: "roomHosts (join_room s r dn st) r' =
          (if r' = r \<and> roomHosts st r = None then Some s else roomHosts st r')" for r'
    using assms(2) by (simp add: join_room_def Let_def split: option.splits)
  show ?thesis
    unfolding host_ok_def
    using assms(1) join_room_member_ids [OF assms(2), of r dn]
    by (auto simp: hosts host_ok_def split: if_splits)
qed

lemma host_ok_negotiate:
  "host_ok st \<Longrightarrow> s \<in> set (member_ids st r) \<Longrightarrow> host_ok (negotiate_host s r k d st)"
  by (auto simp: negotiate_host_def host_ok_def member_ids_def split: option.splits if_splits)

lemma host_ok_join_failed [simp]: "host_ok (join_failed s st) = host_ok st"
  by (simp add: host_ok_def member_ids_def)

lemma host_ok_announce [simp]: "host_ok (announce_join s r k rs st) = host_ok st"
  by (simp add: host_ok_def member_ids_def)

lemma host_ok_join_resume:
  assumes "host_ok st" and "s \<in> set (member_ids st r)"
  shows "host_ok (join_resume s r db st)"
proof -
  let ?st = "st\<lparr>joining := remove1 (s, r) (joining st)\<rparr>"
  have 1: "host_ok ?st" using assms(1) by (simp add: host_ok_def member_ids_def)
  have 2: "s \<in> set (member_ids ?st r)" using assms(2) by (simp add: member_ids_def)
  show ?thesis
    using 1 2 by (simp add: join_resume_def Let_def host_ok_negotiate split: option.splits)
qed

lemma joining_join_pair:
  assumes "sockets st s = Some k"
  shows "joining (join_resume s r db (join_room s r dn st)) = remove1 (s, r) (joining st @ [(s, r)])"
proof -
  have j: "joining (join_room s r dn st) = joining st @ [(s, r)]"
    using assms by (simp add: join_room_def Let_def)
  have f: "joining (join_failed s' st') = joining st'" for s' st'
    by (simp add: join_failed_def)
  have a: "joining (announce_join s' r' k' rs st') = joining st'" for s' r' k' rs st'
    by (simp add: announce_join_def f split: option.splits)
  have n: "joining (negotiate_host s' r' k' d st') = joining st'" for s' r' k' d st'
    by (simp add: negotiate_host_def split: option.splits)
  show ?thesis
    by (simp add: join_resume_def Let_def j f a n split: option.splits)
qed

lemma host_ok_on_plain:
  assumes "host_ok st" and "joins (Client s e) = None"
  shows "host_ok (on s e st) \<and> joining (on s e st) = joining st"
proof (cases e)
  case (Join_room r dn)
  then show ?thesis using assms(2) by (simp add: joins_def)
next
  case Leave_room
  then show ?thesis using assms(1) by (simp add: host_ok_leave)
next
  case (Host_kick_user t)
  then show ?thesis using assms(1) by (simp add: host_ok_kick)
next
  case (Host_transfer t)
  then show ?thesis using assms(1) by (simp add: host_ok_transfer)
next
  case Host_end_session
  then show ?thesis using assms(1) by (simp add: host_ok_end_session)
qed (use assms(1) in \<open>simp_all add: host_ok_view joining_view rooms_view_plain
       rooms_view_request_cursors rooms_view_intent_update rooms_view_voice_join
       rooms_view_voice_leave rooms_view_voice_mute rooms_view_host_mute
       rooms_view_host_toggle\<close>)

lemma joins_SomeD: "joins e = Some (s, r) \<Longrightarrow> \<exists>dn. e = Client s (Join_room r dn)"
  by (cases e) (auto simp: joins_def split: client_event.splits)

lemma resumes_SomeD: "resumes e = Some (s, r) \<Longrightarrow> \<exists>db. e = Join_resume s r db"
  by (cases e) (auto simp: resumes_def)

lemma host_ok_step_plain:
  assumes "host_ok st" and "joining st = []" and "joins e = None" and "resumes e = None"
  shows "host_ok (step e st) \<and> joining (step e st) = []"
proof (cases e)
  case (Client s ev)
  then show ?thesis using assms host_ok_on_plain [of st s ev] by simp
next
  case (Connect s auth)
  then show ?thesis
    using assms(1,2) host_ok_connect rooms_view_connect_hosts [of s auth st] by simp
next
  case (Disconnect s)
  then show ?thesis using assms(1,2) by (simp add: host_ok_disconnect)
next
  case (Join_resume s r db)
  then show ?thesis using assms(4) by (simp add: resumes_def)
qed (use assms(1,2) in \<open>simp_all add: host_ok_view joining_view rooms_view_timers\<close>)

lemma host_ok_join_alone:
  assumes "host_ok st" and "joins e = Some (s, r)"
  shows "host_ok (step e st)"
proof -
  obtain dn where e: "e = Client s (Join_room r dn)" using joins_SomeD [OF assms(2)] by blast
  show ?thesis
  proof (cases "sockets st s")
    case None
    then show ?thesis using assms(1) e by (simp add: is_connected_def)
  next
    case (Some k)
    then show ?thesis using assms(1) e host_ok_join_room [OF assms(1) Some, of r dn] by simp
  qed
qed

lemma host_ok_join_pair:
  assumes "host_ok st" and "joining st = []" and "joins e = Some (s, r)"
    and "resumes e' = Some (s, r)"
  shows "host_ok (step e' (step e st)) \<and> joining (step e' (step e st)) = []"
proof -
  obtain dn where e: "e = Client s (Join_room r dn)" using joins_SomeD [OF assms(3)] by blast
  obtain db where e': "e' = Join_resume s r db" using resumes_SomeD [OF assms(4)] by blast
  show ?thesis
  proof (cases "is_connected st s")
    case False
    then show ?thesis using assms(1,2) e e' by simp
  next
    case True
    then obtain k where k: "sockets st s = Some k"
      by (auto simp: is_connected_def split: option.splits)
    have j: "joining (join_room s r dn st) = joining st @ [(s, r)]"
      using k by (simp add: join_room_def Let_def)
    have st: "step e' (step e st) = join_resume s r db (join_room s r dn st)"
      using True e e' j by simp
    have "host_ok (join_resume s r db (join_room s r dn st))"
      using host_ok_join_room [OF assms(1) k, of r dn] host_ok_join_resume by blast
    moreover have "joining (join_resume s r db (join_room s r dn st)) = []"
      using joining_join_pair [OF k, of r db dn] assms(2) by simp
    ultimately show ?thesis unfolding st by simp
  qed
qed

lemma host_ok_serial:
  "serial es \<Longrightarrow> host_ok st \<Longrightarrow> joining st = [] \<Longrightarrow> host_ok (run es st)"
proof (induction es arbitrary: st rule: serial.induct)
  case 1
  then show ?case by (simp add: run_def)
next
  case (2 e)
  show ?case
  proof (cases "joins e")
    case None
    then show ?thesis using 2 host_ok_step_plain [of st e] by (simp add: run_def)
  next
    case (Some p)
    then obtain s r where "joins e = Some (s, r)" by (cases p) auto
    then show ?thesis using 2 host_ok_join_alone [of st e s r] by (simp add: run_def)
  qed
next
  case (3 e e' es)
  show ?case
  proof (cases "joins e")
    case None
    then have s: "resumes e = None" "serial (e' # es)" using "3.prems"(1) by auto
    have "host_ok (step e st) \<and> joining (step e st) = []"
      using "3.prems"(2,3) None s(1) by (rule host_ok_step_plain)
    then have "host_ok (run (e' # es) (step e st))"
      using "3.IH"(2) None s(2) by simp
    then show ?thesis by (simp add: run_def)
  next
    case (Some p)
    then obtain s r where j: "joins e = Some (s, r)" by (cases p) auto
    then have s: "resumes e' = Some (s, r)" "serial es" using "3.prems"(1) by auto
    have "host_ok (step e' (step e st)) \<and> joining (step e' (step e st)) = []"
      using "3.prems"(2,3) j s(1) by (rule host_ok_join_pair)
    then have "host_ok (run es (step e' (step e st)))"
      using "3.IH"(1) j s(2) by simp
    then show ?thesis by (simp add: run_def)
  qed
qed

lemma host_ok_init: "host_ok init \<and> joining init = []"
  by (simp add: host_ok_def init_def)

text \<open>
  Along every serial run, in which the store answers each join before another event is
  handled, every host assignment names a key of the room's membership map.
\<close>

lemma host_ok_serial_runs: "serial es \<Longrightarrow> host_ok (run es init)"
  using host_ok_serial host_ok_init by blast

section \<open>A burst of changes with no flush ending inside it\<close>

lemma room_timers_filter_tracked:
  assumes "list_all (\<lambda>t. saveTimers st r = Some (fst t)) (room_timers st r)"
    and "saveTimers st r = Some h"
  shows "filter (\<lambda>t. fst (snd t) = r) (filter (\<lambda>t. fst t \<noteq> h) (timers st)) = []"
  using assms
  by (fastforce simp: room_timers_def list_all_iff filter_empty_conv)

lemma room_timers_none_tracked:
  assumes "list_all (\<lambda>t. saveTimers st r = Some (fst t)) (room_timers st r)"
    and "saveTimers st r = None"
  shows "filter (\<lambda>t. fst (snd t) = r) (timers st) = []"
  using assms
  by (auto simp: room_timers_def list_all_iff filter_empty_conv)

lemma debouncedSave_timers_eq:
  "timers (debouncedSave r f c st) =
     (case saveTimers st r of None \<Rightarrow> timers st
      | Some h \<Rightarrow> filter (\<lambda>t. fst t \<noteq> h) (timers st)) @ [(nextTimer st, r, now st + 2000)] \<and>
   nextTimer (debouncedSave r f c st) = Suc (nextTimer st) \<and>
   saveTimers (debouncedSave r f c st) = (saveTimers st)(r \<mapsto> nextTimer st) \<and>
   now (debouncedSave r f c st) = now st \<and>
   storeCalls (debouncedSave r f c st) = storeCalls st \<and>
   flushing (debouncedSave r f c st) = flushing st"
  by (simp add: debouncedSave_def setTimeout_def clearTimeout_def Let_def split: option.splits)

lemma debouncedSave_tracked:
  assumes "tracked st r"
  shows "room_timers (debouncedSave r f c st) r = [(nextTimer st, r, now st + 2000)] \<and>
         tracked (debouncedSave r f c st) r"
proof -
  note eq = debouncedSave_timers_eq [of r f c st]
  have t1: "list_all (\<lambda>t. saveTimers st r = Some (fst t)) (room_timers st r)"
    and t2: "list_all (\<lambda>t. fst t < nextTimer st) (timers st)"
    using assms by (simp_all add: tracked_def)
  have rt: "room_timers (debouncedSave r f c st) r = [(nextTimer st, r, now st + 2000)]"
  proof (cases "saveTimers st r")
    case None
    then show ?thesis
      using eq room_timers_none_tracked [OF t1 None] by (simp add: room_timers_def)
  next
    case (Some h)
    then show ?thesis
      using eq room_timers_filter_tracked [OF t1 Some] by (simp add: room_timers_def)
  qed
  have fresh: "list_all (\<lambda>t. fst t < Suc (nextTimer st)) (timers (debouncedSave r f c st))"
    using eq t2 by (auto simp: list_all_iff split: option.splits)
  show ?thesis
    using rt fresh eq by (simp add: tracked_def)
qed

lemma advance_frame [simp]:
  "timers (advance d st) = timers st" "saveTimers (advance d st) = saveTimers st"
  "nextTimer (advance d st) = nextTimer st" "now (advance d st) = now st + d"
  "pendingSaves (advance d st) = pendingSaves st" "bufs (advance d st) = bufs st"
  "storeCalls (advance d st) = storeCalls st" "flushing (advance d st) = flushing st"
  by (simp_all add: advance_def)

lemma tracked_advance [simp]: "tracked (advance d st) r = tracked st r"
  by (simp add: tracked_def room_timers_def)

lemma room_timers_advance [simp]: "room_timers (advance d st) r = room_timers st r"
  by (simp add: room_timers_def)

lemma pending_advance [simp]: "pending (advance d st) r = pending st r"
  by (simp add: pending_def split: option.splits)

lemma pending_debouncedSave:
  "pending (debouncedSave r f c st) r =
     (if buffered f c then AList.update (the f) c (pending st r) else pending st r)"
  by (simp add: debouncedSave_def setTimeout_def clearTimeout_def Let_def pending_def
        split: option.splits)

text \<open>Each call of a burst leaves exactly one timeout pending for the room.\<close>

lemma burst_single_timer:
  assumes "tracked st r" and "cs \<noteq> []"
  shows "\<exists>h. room_timers (burst r cs st) r = [(h, r, now (burst r cs st) + 2000)] \<and>
             saveTimers (burst r cs st) r = Some h \<and> tracked (burst r cs st) r"
  using assms
proof (induction cs arbitrary: st)
  case Nil
  then show ?case by simp
next
  case (Cons x cs)
  obtain d f c where x: "x = (d, f, c)" by (cases x)
  let ?st1 = "debouncedSave r f c (advance d st)"
  have tr: "tracked (advance d st) r" using Cons.prems(1) by simp
  note one = debouncedSave_tracked [OF tr, of f c]
  note eq = debouncedSave_timers_eq [of r f c "advance d st"]
  show ?case
  proof (cases "cs = []")
    case True
    then show ?thesis using x one eq by simp
  next
    case False
    then show ?thesis using x one Cons.IH [of ?st1] by simp
  qed
qed

text \<open>When the calls after the first come less than the delay apart, no timeout of the
  room comes due inside the burst.\<close>

lemma burst_none_due:
  assumes "tracked st r"
    and "case cs of [] \<Rightarrow> True | x # _ \<Rightarrow> list_all (\<lambda>t. now st + fst x < snd (snd t)) (room_timers st r)"
    and "list_all (\<lambda>x. fst x < 2000) (tl cs)"
  shows "none_due r cs st"
  using assms
proof (induction cs arbitrary: st)
  case Nil
  then show ?case by simp
next
  case (Cons x cs)
  obtain d f c where x: "x = (d, f, c)" by (cases x)
  let ?st1 = "debouncedSave r f c (advance d st)"
  have tr: "tracked (advance d st) r" using Cons.prems(1) by simp
  note one = debouncedSave_tracked [OF tr, of f c]
  note eq = debouncedSave_timers_eq [of r f c "advance d st"]
  have next_ok: "case cs of [] \<Rightarrow> True
       | y # _ \<Rightarrow> list_all (\<lambda>t. now ?st1 + fst y < snd (snd t)) (room_timers ?st1 r)"
    using Cons.prems(3) one eq by (cases cs) auto
  have "none_due r cs ?st1"
    using Cons.IH [of ?st1] one next_ok Cons.prems(3) by (cases cs) auto
  then show ?case using x Cons.prems(2) by simp
qed

text \<open>The buffer holds the latest content of every file the burst touched.\<close>

lemma buffered_file: "buffered f c \<Longrightarrow> (f = Some x) = (the f = x)"
  by (cases f) (auto simp: buffered_def)

lemma pending_burst:
  "map_of (pending (burst r cs st) r) x =
     (case latest cs x of Some c \<Rightarrow> Some c | None \<Rightarrow> map_of (pending st r) x)"
proof (induction cs arbitrary: st)
  case Nil
  then show ?case by simp
next
  case (Cons y cs)
  obtain d f c where y: "y = (d, f, c)" by (cases y)
  let ?st1 = "debouncedSave r f c (advance d st)"
  have p1: "map_of (pending ?st1 r) x =
      (if buffered f c \<and> f = Some x then Some c else map_of (pending st r) x)"
    using buffered_file [of f c x] by (auto simp: pending_debouncedSave update_conv')
  have ih: "map_of (pending (burst r cs ?st1) r) x =
     (case latest cs x of Some c \<Rightarrow> Some c | None \<Rightarrow> map_of (pending ?st1 r) x)"
    by (rule Cons.IH)
  show ?case
  proof (cases "latest cs x")
    case None
    then show ?thesis unfolding y using ih p1 by (cases "buffered f c \<and> f = Some x") auto
  next
    case (Some c')
    then show ?thesis unfolding y using ih by simp
  qed
qed

lemma pending_burst_distinct:
  "distinct (map fst (pending st r)) \<Longrightarrow> distinct (map fst (pending (burst r cs st) r))"
proof (induction cs arbitrary: st)
  case Nil
  then show ?case by simp
next
  case (Cons y cs)
  obtain d f c where y: "y = (d, f, c)" by (cases y)
  have "distinct (map fst (pending (debouncedSave r f c (advance d st)) r))"
    using Cons.prems by (simp add: pending_debouncedSave distinct_update)
  then show ?case using Cons.IH y by simp
qed


end
